theory Spec2Isabelle
  imports Main "HOL-Library.Char_ord" "HOL-Library.List_Lexorder"
begin

section \<open>Scannerv2: a shallow embedding of Main.py\<close>

text \<open>
  The script is sequential Python. Its effects are made explicit: text printed to the
  terminal, seconds slept, sounds played and the content of the directory \<open>scans\<close> live in
  a record \<open>world\<close> that every function takes and returns. A Python exception is a value of
  \<open>py_error\<close> on the left of a sum. The readings of the clock, the draw of the random
  generator and the faults of the disk are inputs of the functions that consume them.
  Strings are \<open>char list\<close>, ordered as Python orders \<open>str\<close> (by character code,
  lexicographically).
\<close>

subsection \<open>Python values and exceptions\<close>

datatype py_error =
  AttributeError string | ValueError | IndexError | FileNotFoundError | JSONDecodeError |
  OSError string

text \<open>
  \<open>str(e)\<close>, as an f-string formats an exception. An AttributeError carries the name of
  the missing class attribute, an OSError its message; the script never formats one of
  the other exceptions.
\<close>

definition str_error :: "py_error \<Rightarrow> string" where
  "str_error e =
     (case e of
        AttributeError a \<Rightarrow>
          ''type object '' @ [CHR 0x27] @ ''ColorPrinter'' @ [CHR 0x27] @
          '' has no attribute '' @ [CHR 0x27] @ a @ [CHR 0x27]
      | OSError m \<Rightarrow> m
      | _ \<Rightarrow> [])"

text \<open>
  The values the script builds and hands to \<open>json.dump\<close>: strings, lists and dictionaries
  with string keys. A dictionary keeps its insertion order, so it is an association list.
\<close>

datatype json = JString string | JArray "json list" | JObject "(string \<times> json) list"

subsection \<open>Strings\<close>

definition digit_char :: "nat \<Rightarrow> char" where
  "digit_char d = char_of (48 + d mod 10)"

text \<open>\<open>zdigits k n\<close>: the decimal digits of \<open>n\<close>, zero-padded to width \<open>k\<close>.\<close>

fun zdigits :: "nat \<Rightarrow> nat \<Rightarrow> string" where
  "zdigits 0 n = []"
| "zdigits (Suc k) n = digit_char (n div 10 ^ k) # zdigits k (n mod 10 ^ k)"

text \<open>\<open>str(n)\<close> for a natural number, as an f-string formats \<open>{i+1}\<close>.\<close>

fun str_nat :: "nat \<Rightarrow> string" where
  "str_nat n = (if n < 10 then [digit_char n] else str_nat (n div 10) @ [digit_char (n mod 10)])"

text \<open>
  \<open>s.replace(old, new)\<close>: every non-overlapping occurrence of \<open>old\<close>, left to right.
  With an empty \<open>old\<close> Python inserts \<open>new\<close> before every character and at the end.
\<close>

fun str_replace :: "string \<Rightarrow> string \<Rightarrow> string \<Rightarrow> string" where
  "str_replace old new [] = (if old = [] then new else [])"
| "str_replace old new (c # cs) =
     (if old = [] then new @ c # str_replace old new cs
      else if take (length old) (c # cs) = old
      then new @ str_replace old new (drop (length old - 1) cs)
      else c # str_replace old new cs)"

text \<open>
  \<open>s.split(sep)\<close> with an explicit separator: \<open>split_loop\<close> carries the piece read so
  far. An empty separator raises ValueError.
\<close>

fun split_loop :: "string \<Rightarrow> string \<Rightarrow> string \<Rightarrow> string list" where
  "split_loop sep acc [] = [acc]"
| "split_loop sep acc (c # cs) =
     (if sep \<noteq> [] \<and> take (length sep) (c # cs) = sep
      then acc # split_loop sep [] (drop (length sep - 1) cs)
      else split_loop sep (acc @ [c]) cs)"

definition str_split :: "string \<Rightarrow> string \<Rightarrow> py_error + string list" where
  "str_split s sep = (if sep = [] then Inl ValueError else Inr (split_loop sep [] s))"

text \<open>\<open>xs[i]\<close> for a non-negative index: IndexError out of range.\<close>

definition list_index :: "'a list \<Rightarrow> nat \<Rightarrow> py_error + 'a" where
  "list_index xs i = (if i < length xs then Inr (xs ! i) else Inl IndexError)"

subsection \<open>datetime\<close>

record datetime =
  year :: nat
  month :: nat
  day :: nat
  hour :: nat
  minute :: nat
  second :: nat
  microsecond :: nat

definition is_leap :: "nat \<Rightarrow> bool" where
  "is_leap y = (y mod 4 = 0 \<and> (y mod 100 \<noteq> 0 \<or> y mod 400 = 0))"

definition days_in_month :: "nat \<Rightarrow> nat \<Rightarrow> nat" where
  "days_in_month y m =
     (if m = 2 then (if is_leap y then 29 else 28)
      else if m = 4 \<or> m = 6 \<or> m = 9 \<or> m = 11 then 30 else 31)"

text \<open>The values a \<open>datetime\<close> object can hold (MINYEAR = 1, MAXYEAR = 9999).\<close>

definition valid_datetime :: "datetime \<Rightarrow> bool" where
  "valid_datetime t =
     (1 \<le> year t \<and> year t \<le> 9999 \<and> 1 \<le> month t \<and> month t \<le> 12 \<and>
      1 \<le> day t \<and> day t \<le> days_in_month (year t) (month t) \<and>
      hour t < 24 \<and> minute t < 60 \<and> second t < 60 \<and> microsecond t < 1000000)"

text \<open>
  Two readings of the clock within the same second, and a reading in an earlier second
  than another.
\<close>

definition same_second :: "datetime \<Rightarrow> datetime \<Rightarrow> bool" where
  "same_second a b =
     (year a = year b \<and> month a = month b \<and> day a = day b \<and>
      hour a = hour b \<and> minute a = minute b \<and> second a = second b)"

definition earlier_second :: "datetime \<Rightarrow> datetime \<Rightarrow> bool" where
  "earlier_second a b =
     (year a < year b \<or> year a = year b \<and>
      (month a < month b \<or> month a = month b \<and>
       (day a < day b \<or> day a = day b \<and>
        (hour a < hour b \<or> hour a = hour b \<and>
         (minute a < minute b \<or> minute a = minute b \<and> second a < second b)))))"

text \<open>
  \<open>strftime\<close>: the directives the script uses, each zero-padded as the library documents
  (\<open>%Y\<close> to four digits, the others to two); any other character is copied.
\<close>

definition directive :: "char \<Rightarrow> datetime \<Rightarrow> string" where
  "directive d t =
     (if d = CHR ''Y'' then zdigits 4 (year t)
      else if d = CHR ''m'' then zdigits 2 (month t)
      else if d = CHR ''d'' then zdigits 2 (day t)
      else if d = CHR ''H'' then zdigits 2 (hour t)
      else if d = CHR ''M'' then zdigits 2 (minute t)
      else if d = CHR ''S'' then zdigits 2 (second t)
      else [CHR ''%'', d])"

fun strftime :: "string \<Rightarrow> datetime \<Rightarrow> string" where
  "strftime [] t = []"
| "strftime [c] t = [c]"
| "strftime (c # d # fs) t =
     (if c = CHR ''%'' then directive d t @ strftime fs t else c # strftime (d # fs) t)"

text \<open>
  \<open>strptime\<close>, after CPython's \<open>_strptime\<close>: the format becomes a regular expression, one
  group per directive; a group is a list of alternatives tried in order, an alternative a
  list of character classes. The first match in backtracking order is taken; text left
  over, no match, an unknown directive and field values that are no date raise ValueError.
\<close>

definition dec_digits :: string where
  "dec_digits = ''0123456789''"

definition nonzero_digits :: string where
  "nonzero_digits = ''123456789''"

definition directive_regex :: "char \<Rightarrow> string list list option" where
  "directive_regex d =
     (if d = CHR ''Y'' then Some [[dec_digits, dec_digits, dec_digits, dec_digits]]
      else if d = CHR ''m'' then Some [[''1'', ''012''], [''0'', nonzero_digits], [nonzero_digits]]
      else if d = CHR ''d'' then
        Some [[''3'', ''01''], [''12'', dec_digits], [''0'', nonzero_digits], [nonzero_digits],
              ['' '', nonzero_digits]]
      else if d = CHR ''H'' then Some [[''2'', ''0123''], [''01'', dec_digits], [dec_digits]]
      else if d = CHR ''M'' then Some [[''012345'', dec_digits], [dec_digits]]
      else if d = CHR ''S'' then Some [[''6'', ''01''], [''012345'', dec_digits], [dec_digits]]
      else None)"

text \<open>
  The groups of a format: \<open>Some d\<close> names the group of directive \<open>%d\<close>, \<open>None\<close> is a
  literal character of the format. \<open>None\<close> as the result is a bad directive.
\<close>

fun format_regex :: "string \<Rightarrow> (char option \<times> string list list) list option" where
  "format_regex [] = Some []"
| "format_regex [c] = (if c = CHR ''%'' then None else Some [(None, [[[c]]])])"
| "format_regex (c # d # fs) =
     (if c = CHR ''%'' then
        (case directive_regex d of
           None \<Rightarrow> None
         | Some alts \<Rightarrow>
             (case format_regex fs of None \<Rightarrow> None | Some gs \<Rightarrow> Some ((Some d, alts) # gs)))
      else (case format_regex (d # fs) of None \<Rightarrow> None | Some gs \<Rightarrow> Some ((None, [[[c]]]) # gs)))"

fun match_alt :: "string list \<Rightarrow> string \<Rightarrow> (string \<times> string) option" where
  "match_alt [] s = Some ([], s)"
| "match_alt (cls # cs) [] = None"
| "match_alt (cls # cs) (c # s) =
     (if c \<in> set cls
      then (case match_alt cs s of None \<Rightarrow> None | Some (m, r) \<Rightarrow> Some (c # m, r))
      else None)"

definition match_group :: "string list list \<Rightarrow> string \<Rightarrow> (string \<times> string) list" where
  "match_group alts s = List.map_filter (\<lambda>a. match_alt a s) alts"

text \<open>All matches of a sequence of groups, in the order backtracking finds them.\<close>

fun match_groups ::
  "(char option \<times> string list list) list \<Rightarrow> string \<Rightarrow> ((char option \<times> string) list \<times> string) list"
where
  "match_groups [] s = [([], s)]"
| "match_groups ((g, alts) # gs) s =
     concat (map (\<lambda>(m, r). map (\<lambda>(fs, r'). ((g, m) # fs, r')) (match_groups gs r))
                 (match_group alts s))"

text \<open>\<open>int(text)\<close> of a matched field: its digits (the day may start with a space).\<close>

definition field_int :: "string \<Rightarrow> nat" where
  "field_int s =
     foldl (\<lambda>a c. if c \<in> set dec_digits then 10 * a + (of_char c - 48) else a) 0 s"

definition field_or :: "(char option \<times> string) list \<Rightarrow> char \<Rightarrow> nat \<Rightarrow> nat" where
  "field_or fs d dflt = (case map_of fs (Some d) of None \<Rightarrow> dflt | Some m \<Rightarrow> field_int m)"

definition strptime :: "string \<Rightarrow> string \<Rightarrow> py_error + datetime" where
  "strptime s fmt =
     (case format_regex fmt of
        None \<Rightarrow> Inl ValueError
      | Some gs \<Rightarrow>
          (case match_groups gs s of
             [] \<Rightarrow> Inl ValueError
           | (fs, rest) # _ \<Rightarrow>
               if rest \<noteq> [] then Inl ValueError
               else
                 (let t = \<lparr> year = field_or fs (CHR ''Y'') 1900, month = field_or fs (CHR ''m'') 1,
                            day = field_or fs (CHR ''d'') 1, hour = field_or fs (CHR ''H'') 0,
                            minute = field_or fs (CHR ''M'') 0, second = field_or fs (CHR ''S'') 0,
                            microsecond = 0 \<rparr>
                  in if valid_datetime t then Inr t else Inl ValueError)))"

subsection \<open>json.dump and json.load\<close>

text \<open>
  \<open>json.dumps(v, indent=4)\<close>, after CPython's encoder: strings are escaped to printable
  ASCII (\<open>ensure_ascii\<close>), an empty list or dictionary is \<open>[]\<close> or \<open>{}\<close>, a non-empty one
  puts every item on a line of its own, indented four spaces per level, items separated
  by a comma and a key from its value by a colon and a space. A character is a code point
  below 256.
\<close>

definition hex_char :: "nat \<Rightarrow> char" where
  "hex_char d = (if d < 10 then char_of (48 + d) else char_of (87 + d))"

definition escape_char :: "char \<Rightarrow> string" where
  "escape_char c =
     (let n = (of_char c :: nat) in
      if c = CHR 0x22 then [CHR 0x5C, CHR 0x22]
      else if c = CHR 0x5C then [CHR 0x5C, CHR 0x5C]
      else if c = CHR 0x0A then [CHR 0x5C, CHR ''n'']
      else if c = CHR 0x0D then [CHR 0x5C, CHR ''r'']
      else if c = CHR 0x09 then [CHR 0x5C, CHR ''t'']
      else if c = CHR 0x08 then [CHR 0x5C, CHR ''b'']
      else if c = CHR 0x0C then [CHR 0x5C, CHR ''f'']
      else if n < 32 \<or> 126 < n
      then [CHR 0x5C, CHR ''u'', CHR ''0'', CHR ''0'', hex_char (n div 16), hex_char (n mod 16)]
      else [c])"

definition encode_string :: "string \<Rightarrow> string" where
  "encode_string s = CHR 0x22 # concat (map escape_char s) @ [CHR 0x22]"

definition newline_indent :: "nat \<Rightarrow> string" where
  "newline_indent lvl = CHR 0x0A # replicate (4 * lvl) (CHR '' '')"

fun json_encode :: "nat \<Rightarrow> json \<Rightarrow> string"
  and encode_items :: "nat \<Rightarrow> json list \<Rightarrow> string"
  and encode_members :: "nat \<Rightarrow> (string \<times> json) list \<Rightarrow> string"
where
  "json_encode lvl (JString s) = encode_string s"
| "json_encode lvl (JArray []) = ''[]''"
| "json_encode lvl (JArray (x # xs)) =
     ''['' @ newline_indent (Suc lvl) @ json_encode (Suc lvl) x @ encode_items (Suc lvl) xs @
     newline_indent lvl @ '']''"
| "json_encode lvl (JObject []) = ''{}''"
| "json_encode lvl (JObject ((k, v) # kvs)) =
     ''{'' @ newline_indent (Suc lvl) @ encode_string k @ '': '' @ json_encode (Suc lvl) v @
     encode_members (Suc lvl) kvs @ newline_indent lvl @ ''}''"
| "encode_items lvl [] = []"
| "encode_items lvl (x # xs) =
     '','' @ newline_indent lvl @ json_encode lvl x @ encode_items lvl xs"
| "encode_members lvl [] = []"
| "encode_members lvl ((k, v) # kvs) =
     '','' @ newline_indent lvl @ encode_string k @ '': '' @ json_encode lvl v @
     encode_members lvl kvs"

definition json_dumps :: "json \<Rightarrow> string" where
  "json_dumps v = json_encode 0 v"

text \<open>
  \<open>json.loads\<close>, after CPython's decoder, for the values of type \<open>json\<close>: white space is
  skipped between tokens, a string ends at the first unescaped quote, a control character
  inside a string and text after the value are errors. Numbers and the literals
  \<open>true\<close>, \<open>false\<close>, \<open>null\<close> have no value in \<open>json\<close> and are rejected, as is an escape of
  a code point above 255. The recursion is bounded by the length of the text, which no
  nesting of values in it can exceed.
\<close>

definition is_ws :: "char \<Rightarrow> bool" where
  "is_ws c = (c = CHR '' '' \<or> c = CHR 0x09 \<or> c = CHR 0x0A \<or> c = CHR 0x0D)"

definition skip_ws :: "string \<Rightarrow> string" where
  "skip_ws s = dropWhile is_ws s"

definition hex_val :: "char \<Rightarrow> nat option" where
  "hex_val c =
     (let n = (of_char c :: nat) in
      if 48 \<le> n \<and> n \<le> 57 then Some (n - 48)
      else if 97 \<le> n \<and> n \<le> 102 then Some (n - 87)
      else if 65 \<le> n \<and> n \<le> 70 then Some (n - 55)
      else None)"

fun hex_num :: "string \<Rightarrow> nat \<Rightarrow> nat option" where
  "hex_num [] acc = Some acc"
| "hex_num (c # cs) acc = (case hex_val c of None \<Rightarrow> None | Some d \<Rightarrow> hex_num cs (16 * acc + d))"

definition unescape :: "char \<Rightarrow> char option" where
  "unescape e =
     (if e = CHR 0x22 then Some (CHR 0x22)
      else if e = CHR 0x5C then Some (CHR 0x5C)
      else if e = CHR ''/'' then Some (CHR ''/'')
      else if e = CHR ''b'' then Some (CHR 0x08)
      else if e = CHR ''f'' then Some (CHR 0x0C)
      else if e = CHR ''n'' then Some (CHR 0x0A)
      else if e = CHR ''r'' then Some (CHR 0x0D)
      else if e = CHR ''t'' then Some (CHR 0x09)
      else None)"

text \<open>\<open>scanstring s\<close>: the string whose opening quote has been read, and the text after it.\<close>

function scanstring :: "string \<Rightarrow> (string \<times> string) option" where
  "scanstring [] = None"
| "scanstring (c # r) =
     (if c = CHR 0x22 then Some ([], r)
      else if c = CHR 0x5C then
        (case r of
           [] \<Rightarrow> None
         | e # r' \<Rightarrow>
             if e = CHR ''u'' then
               (if length r' < 4 then None
                else
                  (case hex_num (take 4 r') 0 of
                     None \<Rightarrow> None
                   | Some n \<Rightarrow>
                       if 256 \<le> n then None
                       else
                         (case scanstring (drop 4 r') of
                            None \<Rightarrow> None
                          | Some (str, rest) \<Rightarrow> Some (char_of n # str, rest))))
             else
               (case unescape e of
                  None \<Rightarrow> None
                | Some ch \<Rightarrow>
                    (case scanstring r' of
                       None \<Rightarrow> None
                     | Some (str, rest) \<Rightarrow> Some (ch # str, rest))))
      else if (of_char c :: nat) < 32 then None
      else (case scanstring r of None \<Rightarrow> None | Some (str, rest) \<Rightarrow> Some (c # str, rest)))"
  by pat_completeness auto
termination
  by (relation "measure length") auto

fun parse_value :: "nat \<Rightarrow> string \<Rightarrow> (json \<times> string) option"
  and parse_items :: "nat \<Rightarrow> string \<Rightarrow> (json list \<times> string) option"
  and parse_members :: "nat \<Rightarrow> string \<Rightarrow> ((string \<times> json) list \<times> string) option"
where
  "parse_value 0 s = None"
| "parse_value (Suc n) [] = None"
| "parse_value (Suc n) (c # r) =
     (if c = CHR 0x22 then
        (case scanstring r of None \<Rightarrow> None | Some (str, r') \<Rightarrow> Some (JString str, r'))
      else if c = CHR ''['' then
        (case skip_ws r of
           [] \<Rightarrow> None
         | x # r' \<Rightarrow>
             if x = CHR '']'' then Some (JArray [], r')
             else (case parse_items n (x # r') of
                     None \<Rightarrow> None
                   | Some (vs, r'') \<Rightarrow> Some (JArray vs, r'')))
      else if c = CHR ''{'' then
        (case skip_ws r of
           [] \<Rightarrow> None
         | x # r' \<Rightarrow>
             if x = CHR ''}'' then Some (JObject [], r')
             else (case parse_members n (x # r') of
                     None \<Rightarrow> None
                   | Some (kvs, r'') \<Rightarrow> Some (JObject kvs, r'')))
      else None)"
| "parse_items 0 s = None"
| "parse_items (Suc n) s =
     (case parse_value n s of
        None \<Rightarrow> None
      | Some (v, r) \<Rightarrow>
          (case skip_ws r of
             [] \<Rightarrow> None
           | c # r' \<Rightarrow>
               if c = CHR '']'' then Some ([v], r')
               else if c = CHR '','' then
                 (case parse_items n (skip_ws r') of
                    None \<Rightarrow> None
                  | Some (vs, r'') \<Rightarrow> Some (v # vs, r''))
               else None))"
| "parse_members 0 s = None"
| "parse_members (Suc n) [] = None"
| "parse_members (Suc n) (q # r) =
     (if q \<noteq> CHR 0x22 then None
      else
        (case scanstring r of
           None \<Rightarrow> None
         | Some (k, r1) \<Rightarrow>
             (case skip_ws r1 of
                [] \<Rightarrow> None
              | c1 # r2 \<Rightarrow>
                  if c1 \<noteq> CHR '':'' then None
                  else
                    (case parse_value n (skip_ws r2) of
                       None \<Rightarrow> None
                     | Some (v, r3) \<Rightarrow>
                         (case skip_ws r3 of
                            [] \<Rightarrow> None
                          | c2 # r4 \<Rightarrow>
                              if c2 = CHR ''}'' then Some ([(k, v)], r4)
                              else if c2 = CHR '','' then
                                (case parse_members n (skip_ws r4) of
                                   None \<Rightarrow> None
                                 | Some (kvs, r5) \<Rightarrow> Some ((k, v) # kvs, r5))
                              else None)))))"


definition json_loads :: "string \<Rightarrow> py_error + json" where
  "json_loads text =
     (case parse_value (length text) (skip_ws text) of
        None \<Rightarrow> Inl JSONDecodeError
      | Some (v, rest) \<Rightarrow> if skip_ws rest = [] then Inr v else Inl JSONDecodeError)"

subsection \<open>The world of the script\<close>

text \<open>
  \<open>stdout\<close>: the text of every \<open>print\<close> call, in order. \<open>slept\<close>: the seconds spent in
  \<open>time.sleep\<close>. \<open>played\<close>: the sound files handed to the mixer. \<open>scans\<close>: the directory
  \<open>scans\<close>, \<open>None\<close> when it does not exist, else its files (name and text).
  \<open>HAS_PYGAME\<close> is the module's global; \<open>mixer_error\<close> is the message of the exception
  the mixer raises, if it raises one.
\<close>

record world =
  stdout :: "string list"
  slept :: nat
  played :: "string list"
  scans :: "(string \<times> string) list option"
  HAS_PYGAME :: bool
  mixer_error :: "string option"

text \<open>
  What can go wrong on the disk during one \<open>save_scan\<close>: \<open>os.makedirs\<close> fails,
  \<open>open\<close> fails, or the write fails after so many characters have reached the file.
\<close>

datatype disk_fault =
  NoFault | MakedirsFails string | OpenFails string | WriteFails nat string

definition then_do ::
  "(py_error + 'a) \<times> world \<Rightarrow> ('a \<Rightarrow> world \<Rightarrow> (py_error + 'b) \<times> world) \<Rightarrow> (py_error + 'b) \<times> world"
where
  "then_do r f = (case r of (Inl e, w) \<Rightarrow> (Inl e, w) | (Inr x, w) \<Rightarrow> f x w)"

text \<open>\<open>try: ... except Exception as e: ...\<close>: every \<open>py_error\<close> is an \<open>Exception\<close>.\<close>

definition try_except ::
  "(py_error + 'a) \<times> world \<Rightarrow> (py_error \<Rightarrow> world \<Rightarrow> (py_error + 'a) \<times> world) \<Rightarrow> (py_error + 'a) \<times> world"
where
  "try_except r handler = (case r of (Inl e, w) \<Rightarrow> handler e w | (Inr x, w) \<Rightarrow> (Inr x, w))"

definition print_line :: "string \<Rightarrow> world \<Rightarrow> world" where
  "print_line text w = w\<lparr>stdout := stdout w @ [text]\<rparr>"

definition sleep :: "nat \<Rightarrow> world \<Rightarrow> world" where
  "sleep n w = w\<lparr>slept := slept w + n\<rparr>"

definition listdir :: "world \<Rightarrow> string list" where
  "listdir w = (case scans w of None \<Rightarrow> [] | Some files \<Rightarrow> map fst files)"

definition files_of :: "world \<Rightarrow> (string \<times> string) list" where
  "files_of w = (case scans w of None \<Rightarrow> [] | Some files \<Rightarrow> files)"

text \<open>The text of a file of the directory, \<open>None\<close> when there is no such file.\<close>

definition read_file :: "string \<Rightarrow> world \<Rightarrow> string option" where
  "read_file name w = map_of (files_of w) name"

text \<open>A file written under a name replaces the file of that name.\<close>

fun put_file :: "string \<Rightarrow> string \<Rightarrow> (string \<times> string) list \<Rightarrow> (string \<times> string) list" where
  "put_file name content [] = [(name, content)]"
| "put_file name content ((n, x) # files) =
     (if n = name then (n, content) # files else (n, x) # put_file name content files)"

definition path_join :: "string \<Rightarrow> string \<Rightarrow> string" where
  "path_join a b =
     (case b of [] \<Rightarrow> a @ ''/'' | c # _ \<Rightarrow> if c = CHR ''/'' then b else a @ ''/'' @ b)"

text \<open>
  \<open>random.randint(a, b)\<close> returns an integer from \<open>a\<close> to \<open>b\<close>, both included; which one
  is decided by the state of the generator, the input \<open>entropy\<close>.
\<close>

definition randint :: "int \<Rightarrow> int \<Rightarrow> nat \<Rightarrow> int" where
  "randint a b entropy = a + int (entropy mod nat (b - a + 1))"

subsection \<open>class ColorPrinter (lines 22 to 30)\<close>

definition RESET :: string where "RESET = CHR 0x1B # ''[0m''"
definition GREEN :: string where "GREEN = CHR 0x1B # ''[92m''"
definition RED :: string where "RED = CHR 0x1B # ''[91m''"
definition YELLOW :: string where "YELLOW = CHR 0x1B # ''[93m''"

text \<open>The attributes of the class that hold a colour, and the lookup \<open>ColorPrinter.NAME\<close>.\<close>

definition ColorPrinter :: "(string \<times> string) list" where
  "ColorPrinter = [(''RESET'', RESET), (''GREEN'', GREEN), (''RED'', RED), (''YELLOW'', YELLOW)]"

definition getattr_ColorPrinter :: "string \<Rightarrow> py_error + string" where
  "getattr_ColorPrinter name =
     (case map_of ColorPrinter name of None \<Rightarrow> Inl (AttributeError name) | Some v \<Rightarrow> Inr v)"

definition colorize :: "string \<Rightarrow> string \<Rightarrow> string" where
  "colorize color text = color @ text @ RESET"

text \<open>
  \<open>print(ColorPrinter.colorize(ColorPrinter.NAME, text))\<close>: the arguments are evaluated
  first, so a missing attribute raises before anything is printed.
\<close>

definition cprint :: "string \<Rightarrow> string \<Rightarrow> world \<Rightarrow> (py_error + unit) \<times> world" where
  "cprint name text w =
     (case getattr_ColorPrinter name of
        Inl e \<Rightarrow> (Inl e, w)
      | Inr color \<Rightarrow> (Inr (), print_line (colorize color text) w))"

subsection \<open>play_sound and banner (lines 32 to 51)\<close>

definition play_sound :: "string \<Rightarrow> world \<Rightarrow> (py_error + unit) \<times> world" where
  "play_sound sound_file w =
     (if \<not> HAS_PYGAME w then (Inr (), w)
      else
        (case mixer_error w of
           None \<Rightarrow> (Inr (), w\<lparr>played := played w @ [sound_file]\<rparr>)
         | Some e \<Rightarrow> (Inr (), print_line (''Warning: Could not play sound ('' @ e @ '')'') w)))"

text \<open>The banner is box-drawing art; \<open>box b\<close> is the UTF-8 text of U+2540 + (b - 0x80).\<close>

definition box :: "nat \<Rightarrow> string" where
  "box b = [CHR 0xE2, CHR 0x95, char_of b]"

definition banner_text :: string where
  "banner_text =
     [CHR 0x0A] @
     concat [box 0x94, box 0x90, box 0x97, box 0xA6, '' '', '' '', box 0x94, box 0x90, box 0x97,
       box 0x94, box 0x90, box 0x97, box 0x94, box 0x90, box 0x97, box 0x97, '' '', box 0xA6,
       box 0x94, box 0x90, box 0x90, box 0x90, box 0x97, box 0x94, box 0x90, box 0x97, box 0x94,
       box 0x90, box 0x97] @ [CHR 0x0A] @
     concat [box 0x91, '' '', [CHR 0xE2, CHR 0x88, CHR 0x88], box 0x91, box 0x9A, box 0x90,
       box 0x97, box 0x91, box 0xA3, '' '', box 0x91, '' '', box 0x91, box 0x91, '' '', box 0x91,
       box 0x9A, box 0x90, box 0x97, '' '', box 0x91, box 0xA3, '' '', box 0xA0, box 0x90,
       box 0x9D, box 0x9A, box 0x90, box 0x97] @ [CHR 0x0A] @
     concat [box 0x9A, box 0x90, box 0x90, box 0xA9, box 0x90, box 0xA9, box 0x9D, box 0x9A,
       box 0x90, box 0x9D, box 0x9A, box 0x90, box 0x9D, box 0x9A, box 0x90, box 0x9D, box 0xA9,
       '' '', box 0xA9, box 0x9A, box 0x90, box 0x90, box 0x90, box 0x9D, box 0x9A, box 0x90,
       box 0x9D, box 0x9A, box 0x90, box 0x90, box 0x9D] @ [CHR 0x0A]"

definition banner :: "world \<Rightarrow> (py_error + unit) \<times> world" where
  "banner w = cprint ''GREEN'' banner_text w"

subsection \<open>save_scan (lines 116 to 132)\<close>

definition scan_filename :: "datetime \<Rightarrow> string" where
  "scan_filename now = ''scan_'' @ strftime ''%Y%m%d_%H%M%S'' now @ ''.json''"

text \<open>Lines 122 and 123: the directory is made when it does not exist.\<close>

definition makedirs_scans :: "disk_fault \<Rightarrow> world \<Rightarrow> (py_error + unit) \<times> world" where
  "makedirs_scans fault w =
     (case scans w of
        Some files \<Rightarrow> (Inr (), w)
      | None \<Rightarrow>
          (case fault of
             MakedirsFails m \<Rightarrow> (Inl (OSError m), w)
           | _ \<Rightarrow> (Inr (), w\<lparr>scans := Some []\<rparr>)))"

text \<open>Line 125: \<open>open(filepath, "w")\<close> creates the file or empties it.\<close>

definition open_w :: "disk_fault \<Rightarrow> string \<Rightarrow> world \<Rightarrow> (py_error + unit) \<times> world" where
  "open_w fault name w =
     (case fault of
        OpenFails m \<Rightarrow> (Inl (OSError m), w)
      | _ \<Rightarrow>
          (case scans w of
             None \<Rightarrow> (Inl FileNotFoundError, w)
           | Some files \<Rightarrow> (Inr (), w\<lparr>scans := Some (put_file name [] files)\<rparr>)))"

text \<open>
  Line 127: \<open>json.dump(scan_data, f, indent=4)\<close> into the open file. A write that fails
  leaves in the file the characters that reached it.
\<close>

definition write_file :: "string \<Rightarrow> string \<Rightarrow> world \<Rightarrow> world" where
  "write_file name content w =
     (case scans w of
        None \<Rightarrow> w
      | Some files \<Rightarrow> w\<lparr>scans := Some (put_file name content files)\<rparr>)"

definition json_dump :: "disk_fault \<Rightarrow> json \<Rightarrow> string \<Rightarrow> world \<Rightarrow> (py_error + unit) \<times> world" where
  "json_dump fault scan_data name w =
     (case fault of
        WriteFails n m \<Rightarrow> (Inl (OSError m), write_file name (take n (json_dumps scan_data)) w)
      | _ \<Rightarrow> (Inr (), write_file name (json_dumps scan_data) w))"

text \<open>Lines 122 to 130: the body of the \<open>try\<close>.\<close>

definition save_attempt :: "datetime \<Rightarrow> disk_fault \<Rightarrow> json \<Rightarrow> world \<Rightarrow> (py_error + unit) \<times> world" where
  "save_attempt now fault scan_data w =
     (let filename = scan_filename now;
          filepath = path_join ''scans'' filename
      in then_do (makedirs_scans fault w) (\<lambda>_ w1.
         then_do (open_w fault filename w1) (\<lambda>_ w2.
         then_do (json_dump fault scan_data filename w2) (\<lambda>_ w3.
         then_do (cprint ''GREEN'' (''[+] Scan saved to '' @ filepath) w3) (\<lambda>_ w4.
         play_sound ''scan_complete.wav'' w4)))))"

definition save_scan :: "datetime \<Rightarrow> disk_fault \<Rightarrow> json \<Rightarrow> world \<Rightarrow> (py_error + unit) \<times> world" where
  "save_scan now fault scan_data w =
     try_except (save_attempt now fault scan_data w)
       (\<lambda>e w5. cprint ''RED'' (''[!] Failed to save scan: '' @ str_error e) w5)"

text \<open>The world after a sequence of calls of \<open>save_scan\<close>, none struck by a fault.\<close>

definition saved :: "(datetime \<times> json) list \<Rightarrow> world \<Rightarrow> world" where
  "saved reports w = foldl (\<lambda>w' (now, scan_data). snd (save_scan now NoFault scan_data w')) w reports"

subsection \<open>scan_website (lines 65 to 114)\<close>

text \<open>The dictionary \<open>findings\<close>, from its url, its scan time and its list of findings.\<close>

definition scan_record :: "string \<Rightarrow> string \<Rightarrow> json list \<Rightarrow> json" where
  "scan_record url scan_time fs =
     JObject [(''url'', JString url), (''scan_time'', JString scan_time), (''findings'', JArray fs)]"

text \<open>Lines 67 to 74: the banner, the first message, the url and the scan time.\<close>

definition scan_intro :: "string \<Rightarrow> datetime \<Rightarrow> world \<Rightarrow> (py_error + string \<times> string) \<times> world" where
  "scan_intro url now w =
     then_do (banner w) (\<lambda>_ w1.
     then_do (cprint ''YELLOW'' (CHR 0x0A # ''[+] Starting scan for '' @ url @ ''...'') w1) (\<lambda>_ w2.
     (Inr (url, strftime ''%Y-%m-%d %H:%M:%S'' now), w2)))"

text \<open>Lines 77 to 84: the simulated scanning process.\<close>

definition scan_progress :: "world \<Rightarrow> (py_error + unit) \<times> world" where
  "scan_progress w =
     then_do (cprint ''BLUE'' ''[*] Checking for open directories...'' w) (\<lambda>_ w1.
     then_do (cprint ''BLUE'' ''[*] Running vulnerability scans...'' (sleep 1 w1)) (\<lambda>_ w2.
     then_do (cprint ''YELLOW'' ''[*] Analyzing SSL/TLS configuration...'' (sleep 2 w2)) (\<lambda>_ w3.
     (Inr (), sleep 1 w3))))"

text \<open>Lines 86 to 108: the random findings. \<open>fs\<close> is the list \<open>findings["findings"]\<close>.\<close>

definition finding_type :: string where
  "finding_type = ''SQL Injection''"

definition severity :: string where
  "severity = ''High''"

definition recommendation :: string where
  "recommendation = ''Implement prepared statements to prevent SQL injection.''"

definition finding :: json where
  "finding =
     JObject [(''type'', JString finding_type), (''severity'', JString severity),
              (''recommendation'', JString recommendation)]"

fun findings_loop :: "nat list \<Rightarrow> json list \<Rightarrow> world \<Rightarrow> (py_error + json list) \<times> world" where
  "findings_loop [] fs w = (Inr fs, w)"
| "findings_loop (i # rest) fs w =
     then_do (cprint ''RED'' (''  [Finding '' @ str_nat (i + 1) @ '']'') w) (\<lambda>_ w1.
     then_do (cprint ''RED'' (''      Type: '' @ finding_type) w1) (\<lambda>_ w2.
     then_do (cprint ''RED'' (''      Severity: '' @ severity) w2) (\<lambda>_ w3.
     then_do (cprint ''RED'' (''      Recommendation: '' @ recommendation @ [CHR 0x0A]) w3) (\<lambda>_ w4.
     findings_loop rest (fs @ [finding]) w4))))"

definition scan_generate :: "nat \<Rightarrow> json list \<Rightarrow> world \<Rightarrow> (py_error + json list) \<times> world" where
  "scan_generate entropy fs w =
     (let num_findings = randint 1 5 entropy
      in if num_findings > 0 then
           then_do (cprint ''RED'' ''[!] Potential vulnerabilities found!'' w) (\<lambda>_ w1.
           findings_loop [0..<nat num_findings] fs w1)
         else
           then_do (cprint ''GREEN'' (''[+] No vulnerabilities detected.'' @ [CHR 0x0A]) w) (\<lambda>_ w1.
           (Inr fs, w1)))"

text \<open>What one round of the loop prints (lines 103 to 106), for the statements below.\<close>

definition finding_lines :: "nat \<Rightarrow> string list" where
  "finding_lines i =
     [colorize RED (''  [Finding '' @ str_nat (i + 1) @ '']''),
      colorize RED (''      Type: '' @ finding_type),
      colorize RED (''      Severity: '' @ severity),
      colorize RED (''      Recommendation: '' @ recommendation @ [CHR 0x0A])]"

text \<open>Lines 110 to 114: the last message, the save, and the dictionary returned.\<close>

definition completed :: string where
  "completed = colorize GREEN (''[+] Scan completed successfully!'' @ [CHR 0x0A])"

definition scan_finish :: "datetime \<Rightarrow> disk_fault \<Rightarrow> json \<Rightarrow> world \<Rightarrow> (py_error + json) \<times> world" where
  "scan_finish now fault findings w =
     then_do (cprint ''GREEN'' (''[+] Scan completed successfully!'' @ [CHR 0x0A]) w) (\<lambda>_ w1.
     then_do (save_scan now fault findings w1) (\<lambda>_ w2.
     (Inr findings, w2)))"

text \<open>
  The inputs of one call: the clock read at line 72 and at line 118, the state of the
  random generator at line 88, and the fault of the disk during the save.
\<close>

record scan_env =
  clock_scan :: datetime
  entropy :: nat
  clock_save :: datetime
  fault :: disk_fault

definition scan_website :: "string \<Rightarrow> scan_env \<Rightarrow> world \<Rightarrow> (py_error + json) \<times> world" where
  "scan_website url env w =
     then_do (scan_intro url (clock_scan env) w) (\<lambda>(url', scan_time) w1.
     then_do (scan_progress w1) (\<lambda>_ w2.
     then_do (scan_generate (entropy env) [] w2) (\<lambda>fs w3.
     scan_finish (clock_save env) (fault env) (scan_record url' scan_time fs) w3)))"

subsection \<open>view_history (lines 134 to 162) and display_scan_details (lines 164 to 171)\<close>

text \<open>Lines 147 and 148: the date shown for a file of the directory.\<close>

definition history_date :: "string \<Rightarrow> py_error + string" where
  "history_date scan_file =
     (case str_split (str_replace ''.json'' [] scan_file) ''_'' of
        Inl e \<Rightarrow> Inl e
      | Inr parts \<Rightarrow>
          (case list_index parts 1 of
             Inl e \<Rightarrow> Inl e
           | Inr timestamp \<Rightarrow>
               (case strptime timestamp ''%Y%m%d%H%M%S'' of
                  Inl e \<Rightarrow> Inl e
                | Inr t \<Rightarrow> Inr (strftime ''%Y-%m-%d %H:%M:%S'' t))))"

text \<open>Line 149: the summary printed for the file at index \<open>i\<close>.\<close>

definition summary_line :: "nat \<Rightarrow> string \<Rightarrow> string \<Rightarrow> string" where
  "summary_line i scan_file date_str =
     str_nat (i + 1) @ '') Scan ID: '' @ scan_file @ '', Date: '' @ date_str"

fun history_loop :: "nat \<Rightarrow> string list \<Rightarrow> world \<Rightarrow> (py_error + unit) \<times> world" where
  "history_loop i [] w = (Inr (), w)"
| "history_loop i (scan_file # rest) w =
     (case history_date scan_file of
        Inl e \<Rightarrow> (Inl e, w)
      | Inr date_str \<Rightarrow>
          history_loop (Suc i) rest (print_line (summary_line i scan_file date_str) w))"

text \<open>
  The summaries of files whose dates are known, numbered from index \<open>i\<close>, for the
  statements below.
\<close>

fun summaries :: "nat \<Rightarrow> string list \<Rightarrow> string list \<Rightarrow> string list" where
  "summaries i (scan_file # rest) (date_str # dates) =
     summary_line i scan_file date_str # summaries (Suc i) rest dates"
| "summaries i names dates = []"

text \<open>Line 144: the names of the directory, the greatest first.\<close>

definition sorted_scans :: "world \<Rightarrow> string list" where
  "sorted_scans w = rev (sort (listdir w))"

text \<open>
  Lines 151 to 162 read a selection from the terminal and call
  \<open>display_scan_details\<close>, whose body the source file does not hold to its end; they are
  the parameter \<open>selection\<close>, which receives the sorted names.
\<close>

definition view_history ::
  "(string list \<Rightarrow> world \<Rightarrow> (py_error + unit) \<times> world) \<Rightarrow> world \<Rightarrow> (py_error + unit) \<times> world"
where
  "view_history selection w =
     then_do (banner w) (\<lambda>_ w1.
       (let w2 = print_line (CHR 0x0A # ''===== Scan History ====='' @ [CHR 0x0A]) w1
        in if scans w2 = None \<or> listdir w2 = []
           then cprint ''YELLOW'' ''No previous scans found.'' w2
           else
             then_do (history_loop 0 (take 10 (sorted_scans w2)) w2) (\<lambda>_ w3.
             selection (sorted_scans w2) w3)))"

text \<open>Lines 166 to 171 of \<open>display_scan_details\<close>: the file is opened and read as JSON.\<close>

definition load_scan_data :: "string \<Rightarrow> world \<Rightarrow> py_error + json" where
  "load_scan_data filename w =
     (case read_file filename w of
        None \<Rightarrow> Inl FileNotFoundError
      | Some text \<Rightarrow> json_loads text)"

subsection \<open>Concrete inputs\<close>

text \<open>
  A machine on which the script has not run yet (no directory \<open>scans\<close>, no pygame), a
  reading of the clock, and the inputs of one scan.
\<close>

definition fresh_world :: world where
  "fresh_world =
     \<lparr> stdout = [], slept = 0, played = [], scans = None, HAS_PYGAME = False,
       mixer_error = None \<rparr>"

definition example_time :: datetime where
  "example_time =
     \<lparr> year = 2026, month = 11, day = 3, hour = 23, minute = 4, second = 5, microsecond = 17 \<rparr>"

definition example_record :: json where
  "example_record = scan_record ''http://example.com'' ''2026-11-03 23:04:05'' [finding]"

definition later_time :: datetime where
  "later_time = example_time\<lparr>microsecond := 900000\<rparr>"

definition other_record :: json where
  "other_record = scan_record ''http://example.org'' ''2026-11-03 23:04:05'' []"

definition next_second :: datetime where
  "next_second = example_time\<lparr>second := 6, microsecond := 0\<rparr>"

text \<open>Eight reports, saved one second after the other.\<close>

definition eight_reports :: "(datetime \<times> json) list" where
  "eight_reports =
     map (\<lambda>s. (example_time\<lparr>second := s\<rparr>, example_record)) [1, 2, 3, 4, 5, 6, 7, 8]"

text \<open>
  Twelve files that \<open>save_scan\<close> did not write, with names that sort above the names it
  makes and that hold the 14 digits \<open>view_history\<close> looks for; and a directory that holds
  them and one saved scan.
\<close>

definition foreign_names :: "string list" where
  "foreign_names =
     [''t_20261103230401.json'', ''t_20261103230402.json'', ''t_20261103230403.json'',
      ''t_20261103230404.json'', ''t_20261103230405.json'', ''t_20261103230406.json'',
      ''t_20261103230407.json'', ''t_20261103230408.json'', ''t_20261103230409.json'',
      ''t_20261103230410.json'', ''t_20261103230411.json'', ''t_20261103230412.json'']"

definition crowded_world :: world where
  "crowded_world =
     saved [(example_time, example_record)]
       (fresh_world\<lparr>scans := Some (map (\<lambda>name. (name, [])) foreign_names)\<rparr>)"

definition no_selection :: "string list \<Rightarrow> world \<Rightarrow> (py_error + unit) \<times> world" where
  "no_selection names w = (Inr (), w)"

definition example_env :: scan_env where
  "example_env =
     \<lparr> clock_scan = example_time, entropy = 7, clock_save = example_time, fault = NoFault \<rparr>"

section \<open>Properties\<close>

subsection \<open>Sequencing, printing and the colours\<close>

lemma then_do_Inr: "then_do (Inr x, w) f = f x w"
  by (simp add: then_do_def)

lemma then_do_Inl: "then_do (Inl e, w) f = (Inl e, w)"
  by (simp add: then_do_def)

lemma cprint_GREEN: "cprint ''GREEN'' text w = (Inr (), print_line (colorize GREEN text) w)"
  by (simp add: cprint_def getattr_ColorPrinter_def ColorPrinter_def)

lemma cprint_RED: "cprint ''RED'' text w = (Inr (), print_line (colorize RED text) w)"
  by (simp add: cprint_def getattr_ColorPrinter_def ColorPrinter_def)

lemma cprint_YELLOW: "cprint ''YELLOW'' text w = (Inr (), print_line (colorize YELLOW text) w)"
  by (simp add: cprint_def getattr_ColorPrinter_def ColorPrinter_def)

lemma cprint_BLUE: "cprint ''BLUE'' text w = (Inl (AttributeError ''BLUE''), w)"
  by (simp add: cprint_def getattr_ColorPrinter_def ColorPrinter_def)

lemma print_line_twice:
  "print_line b (print_line a w) = w\<lparr>stdout := stdout w @ [a, b]\<rparr>"
  by (simp add: print_line_def)

lemma colorize_RED_not_GREEN: "colorize RED x \<noteq> colorize GREEN y"
  by (simp add: colorize_def RED_def GREEN_def)

subsection \<open>The phases of scan_website\<close>

lemma scan_intro_eq:
  "scan_intro url now w =
     (Inr (url, strftime ''%Y-%m-%d %H:%M:%S'' now),
      w\<lparr>stdout := stdout w @ [colorize GREEN banner_text,
            colorize YELLOW (CHR 0x0A # ''[+] Starting scan for '' @ url @ ''...'')]\<rparr>)"
  by (simp add: scan_intro_def banner_def cprint_GREEN cprint_YELLOW then_do_Inr print_line_twice)

lemma scan_progress_eq: "scan_progress w = (Inl (AttributeError ''BLUE''), w)"
  by (simp add: scan_progress_def cprint_BLUE then_do_Inl)

lemma findings_loop_eq:
  "findings_loop rounds fs w =
     (Inr (fs @ replicate (length rounds) finding),
      w\<lparr>stdout := stdout w @ concat (map finding_lines rounds)\<rparr>)"
proof (induction rounds arbitrary: fs w)
  case Nil
  show ?case by simp
next
  case (Cons i rest)
  show ?case
    by (simp add: Cons.IH cprint_RED then_do_Inr print_line_def finding_lines_def
        replicate_app_Cons_same)
qed

lemma randint_range:
  assumes "a \<le> b"
  shows "a \<le> randint a b e \<and> randint a b e \<le> b"
proof -
  from assms have "0 < nat (b - a + 1)" by simp
  then have "e mod nat (b - a + 1) < nat (b - a + 1)" by simp
  with assms have "int (e mod nat (b - a + 1)) < b - a + 1" by linarith
  then show ?thesis by (simp add: randint_def)
qed

lemma finding_lines_RED: "l \<in> set (finding_lines i) \<Longrightarrow> \<exists>x. l = colorize RED x"
  by (auto simp: finding_lines_def)

lemma no_green_line:
  "colorize GREEN y \<notin> set (colorize RED a # concat (map finding_lines rounds))"
proof
  assume "colorize GREEN y \<in> set (colorize RED a # concat (map finding_lines rounds))"
  then consider "colorize GREEN y = colorize RED a"
    | i where "colorize GREEN y \<in> set (finding_lines i)"
    by auto
  then show False
  proof cases
    case 1
    then show False using colorize_RED_not_GREEN [of a y] by simp
  next
    case 2
    then obtain x where "colorize GREEN y = colorize RED x"
      using finding_lines_RED by blast
    then show False using colorize_RED_not_GREEN [of x y] by simp
  qed
qed

subsection \<open>scan_website as a whole\<close>

text \<open>
  C1. The claim: for every url, \<open>scan_website(url)\<close> prints the banner, simulates the
  scan with its sleeps, generates the findings and writes the record to a file under
  \<open>scans\<close>. On the code the call for \<open>http://example.com\<close> stops at line 77 with
  AttributeError: only the banner and the first message are printed, no second is slept
  and the directory \<open>scans\<close> is never made.
\<close>

theorem scan_website_example_stops_at_line_77:
  "scan_website ''http://example.com'' example_env fresh_world =
     (Inl (AttributeError ''BLUE''),
      \<lparr> stdout = [colorize GREEN banner_text,
                   colorize YELLOW (CHR 0x0A # ''[+] Starting scan for http://example.com...'')],
        slept = 0, played = [], scans = None, HAS_PYGAME = False, mixer_error = None \<rparr>)"
  by (simp add: scan_website_def scan_intro_eq scan_progress_eq then_do_Inr then_do_Inl
      fresh_world_def)

text \<open>
  C2. For every url, \<open>scan_website(url)\<close> raises AttributeError for the attribute
  \<open>BLUE\<close>, which class \<open>ColorPrinter\<close> does not define, at its first progress message:
  the banner and the starting message have been printed, and nothing else of the world
  has changed (no sleep, no finding, no file).
\<close>

theorem scan_website_raises_AttributeError:
  "scan_website url env w =
     (Inl (AttributeError ''BLUE''),
      w\<lparr>stdout := stdout w @ [colorize GREEN banner_text,
            colorize YELLOW (CHR 0x0A # ''[+] Starting scan for '' @ url @ ''...'')]\<rparr>)"
  by (simp add: scan_website_def scan_intro_eq scan_progress_eq then_do_Inr then_do_Inl)

text \<open>
  C10. Whenever the findings are generated (lines 86 to 108), the draw lies between 1 and
  5, that many findings are appended, each the dictionary of type SQL Injection and
  severity High, and the lines printed are the red heading and the red lines of each
  finding: the green line of the branch for no finding is not among them.
\<close>

theorem scan_generate_findings:
  "1 \<le> randint 1 5 e \<and> randint 1 5 e \<le> 5 \<and>
   scan_generate e fs w =
     (Inr (fs @ replicate (nat (randint 1 5 e)) finding),
      w\<lparr>stdout := stdout w @ colorize RED ''[!] Potential vulnerabilities found!'' #
                   concat (map finding_lines [0..<nat (randint 1 5 e)])\<rparr>) \<and>
   finding = JObject [(''type'', JString ''SQL Injection''), (''severity'', JString ''High''),
     (''recommendation'', JString ''Implement prepared statements to prevent SQL injection.'')] \<and>
   colorize GREEN (''[+] No vulnerabilities detected.'' @ [CHR 0x0A]) \<notin>
     set (colorize RED ''[!] Potential vulnerabilities found!'' #
          concat (map finding_lines [0..<nat (randint 1 5 e)]))"
proof -
  have r: "1 \<le> randint 1 5 e \<and> randint 1 5 e \<le> 5"
    using randint_range [of 1 5 e] by simp
  then have pos: "0 < randint 1 5 e" by simp
  have g: "scan_generate e fs w =
     (Inr (fs @ replicate (nat (randint 1 5 e)) finding),
      w\<lparr>stdout := stdout w @ colorize RED ''[!] Potential vulnerabilities found!'' #
                   concat (map finding_lines [0..<nat (randint 1 5 e)])\<rparr>)"
    using pos
    by (simp add: scan_generate_def Let_def cprint_RED then_do_Inr findings_loop_eq
        print_line_def)
  have f: "finding = JObject [(''type'', JString ''SQL Injection''), (''severity'', JString ''High''),
     (''recommendation'', JString ''Implement prepared statements to prevent SQL injection.'')]"
    by (simp add: finding_def finding_type_def severity_def recommendation_def)
  have n: "colorize GREEN (''[+] No vulnerabilities detected.'' @ [CHR 0x0A]) \<notin>
     set (colorize RED ''[!] Potential vulnerabilities found!'' #
          concat (map finding_lines [0..<nat (randint 1 5 e)]))"
    by (rule no_green_line)
  show ?thesis
    by (intro conjI conjunct1 [OF r] conjunct2 [OF r] g f n)
qed

lemma map_of_put_file_same: "map_of (put_file n c fs) n = Some c"
  by (induction fs) auto

lemma map_of_put_file_other: "n' \<noteq> n \<Longrightarrow> map_of (put_file n c fs) n' = map_of fs n'"
  by (induction fs) auto

lemma put_file_twice: "put_file n c (put_file n c' fs) = put_file n c fs"
  by (induction fs) auto

lemma names_put_file:
  "map fst (put_file n c fs) = (if n \<in> set (map fst fs) then map fst fs else map fst fs @ [n])"
  by (induction fs) force+

lemma save_scan_cases:
  "save_scan now f d w =
     (case save_attempt now f d w of
        (Inl e, w') \<Rightarrow>
          (Inr (), print_line (colorize RED (''[!] Failed to save scan: '' @ str_error e)) w')
      | (Inr x, w') \<Rightarrow> (Inr x, w'))"
  by (simp add: save_scan_def try_except_def cprint_RED split: prod.splits sum.splits)

lemma save_scan_returns: "fst (save_scan now f d w) = Inr ()"
  by (simp add: save_scan_cases split: prod.splits sum.splits)

lemma play_sound_scans: "scans (snd (play_sound x w)) = scans w"
  by (simp add: play_sound_def print_line_def split: option.splits)

lemma play_sound_returns: "fst (play_sound x w) = Inr ()"
  by (simp add: play_sound_def split: option.splits)

lemma scans_print_line: "scans (print_line a w) = scans w"
  by (simp add: print_line_def)

lemma files_of_print_line: "files_of (print_line a w) = files_of w"
  by (simp add: files_of_def print_line_def)

subsection \<open>The directory after save_scan\<close>

lemma save_attempt_NoFault:
  "fst (save_attempt now NoFault d w) = Inr () \<and>
   scans (snd (save_attempt now NoFault d w)) =
     Some (put_file (scan_filename now) (json_dumps d) (files_of w))"
  by (cases "scans w")
     (simp_all add: save_attempt_def Let_def makedirs_scans_def open_w_def json_dump_def
       write_file_def then_do_Inr cprint_GREEN play_sound_scans play_sound_returns
       scans_print_line files_of_def put_file_twice)

lemma save_attempt_WriteFails:
  "save_attempt now (WriteFails n m) d w =
     (Inl (OSError m),
      w\<lparr>scans := Some (put_file (scan_filename now) (take n (json_dumps d)) (files_of w))\<rparr>)"
  by (cases "scans w")
     (simp_all add: save_attempt_def Let_def makedirs_scans_def open_w_def json_dump_def
       write_file_def then_do_Inr then_do_Inl files_of_def put_file_twice)

lemma save_attempt_OpenFails:
  "save_attempt now (OpenFails m) d w = (Inl (OSError m), w\<lparr>scans := Some (files_of w)\<rparr>)"
  by (cases "scans w")
     (simp_all add: save_attempt_def Let_def makedirs_scans_def open_w_def
       then_do_Inr then_do_Inl files_of_def)

lemma save_attempt_MakedirsFails:
  "scans w = None \<Longrightarrow> save_attempt now (MakedirsFails m) d w = (Inl (OSError m), w)"
  by (simp add: save_attempt_def Let_def makedirs_scans_def then_do_Inl)

lemma save_scan_NoFault:
  "scans (snd (save_scan now NoFault d w)) =
     Some (put_file (scan_filename now) (json_dumps d) (files_of w))"
  using save_attempt_NoFault [of now d w]
  by (cases "save_attempt now NoFault d w") (simp add: save_scan_cases)

subsection \<open>A failed save and the record returned\<close>

text \<open>
  The end of \<open>scan_website\<close> (lines 110 to 114), taken alone, returns the findings
  record it was given, unchanged, whatever the disk does during the save; and when the
  body of the \<open>try\<close> in \<open>save_scan\<close> raises an error, the failure is reported in red
  after what that body had done.
\<close>

lemma scan_finish_returns:
  "fst (scan_finish now f d w) = Inr d \<and>
   (fst (save_attempt now f d (print_line completed w)) = Inl e \<longrightarrow>
    scan_finish now f d w =
      (Inr d,
       print_line (colorize RED (''[!] Failed to save scan: '' @ str_error e))
         (snd (save_attempt now f d (print_line completed w)))))"
proof -
  have fin: "scan_finish now f d w =
      (Inr d, snd (save_scan now f d (print_line completed w)))"
    using save_scan_returns [of now f d "print_line completed w"]
    by (cases "save_scan now f d (print_line completed w)")
       (simp add: scan_finish_def cprint_GREEN then_do_Inr completed_def)
  have a: "fst (scan_finish now f d w) = Inr d"
    by (simp add: fin)
  have b: "scan_finish now f d w =
      (Inr d,
       print_line (colorize RED (''[!] Failed to save scan: '' @ str_error e))
         (snd (save_attempt now f d (print_line completed w))))"
    if "fst (save_attempt now f d (print_line completed w)) = Inl e"
    using that
    by (cases "save_attempt now f d (print_line completed w)") (simp add: fin save_scan_cases)
  from a b show ?thesis by (intro conjI impI)
qed

lemma scan_finish_open_fails:
  "fst (save_attempt example_time (OpenFails ''Permission denied'') example_record
          (print_line completed fresh_world)) = Inl (OSError ''Permission denied'') \<and>
   scan_finish example_time (OpenFails ''Permission denied'') example_record fresh_world =
     (Inr example_record,
      \<lparr> stdout = [completed, colorize RED ''[!] Failed to save scan: Permission denied''],
        slept = 0, played = [], scans = Some [], HAS_PYGAME = False, mixer_error = None \<rparr>)"
proof -
  have h: "fst (save_attempt example_time (OpenFails ''Permission denied'') example_record
          (print_line completed fresh_world)) = Inl (OSError ''Permission denied'')"
    by (simp add: save_attempt_OpenFails)
  have "scan_finish example_time (OpenFails ''Permission denied'') example_record fresh_world =
      (Inr example_record,
       print_line (colorize RED (''[!] Failed to save scan: '' @ str_error (OSError ''Permission denied'')))
         (snd (save_attempt example_time (OpenFails ''Permission denied'') example_record
            (print_line completed fresh_world))))"
    using scan_finish_returns [of example_time "OpenFails ''Permission denied''"
        example_record fresh_world "OSError ''Permission denied''"] h
    by blast
  then show ?thesis
    using h
    by (simp add: save_attempt_OpenFails str_error_def print_line_def fresh_world_def files_of_def)
qed

text \<open>
  C4. The claim: when the save fails, the failure is reported and the caller of
  \<open>scan_website\<close> still receives the findings record. On the code no call of
  \<open>scan_website\<close> returns a record: it raises AttributeError at line 77, before any
  finding is made and before \<open>save_scan\<close> is called. For \<open>http://example.com\<close> on a
  disk where \<open>open\<close> fails, only the banner and the first message are printed and
  the failure of the disk is never met. Lines 110 to 114, had they been reached, return
  the record for every fault of the disk and report the failure.
\<close>

theorem scan_website_never_returns_record:
  "fst (scan_website url env w) = Inl (AttributeError ''BLUE'') \<and>
   fst (scan_website url env w) \<noteq> Inr d \<and>
   scan_website ''http://example.com''
     (example_env\<lparr>fault := OpenFails ''Permission denied''\<rparr>) fresh_world =
     (Inl (AttributeError ''BLUE''),
      \<lparr> stdout = [colorize GREEN banner_text,
                   colorize YELLOW (CHR 0x0A # ''[+] Starting scan for http://example.com...'')],
        slept = 0, played = [], scans = None, HAS_PYGAME = False, mixer_error = None \<rparr>) \<and>
   fst (scan_finish now f d w) = Inr d \<and>
   scan_finish example_time (OpenFails ''Permission denied'') example_record fresh_world =
     (Inr example_record,
      \<lparr> stdout = [completed, colorize RED ''[!] Failed to save scan: Permission denied''],
        slept = 0, played = [], scans = Some [], HAS_PYGAME = False, mixer_error = None \<rparr>)"
proof -
  have r: "fst (scan_website url env w) = Inl (AttributeError ''BLUE'')"
    by (simp add: scan_website_def scan_intro_eq scan_progress_eq then_do_Inr then_do_Inl)
  then have n: "fst (scan_website url env w) \<noteq> Inr d"
    by simp
  have a: "scan_website ''http://example.com''
     (example_env\<lparr>fault := OpenFails ''Permission denied''\<rparr>) fresh_world =
     (Inl (AttributeError ''BLUE''),
      \<lparr> stdout = [colorize GREEN banner_text,
                   colorize YELLOW (CHR 0x0A # ''[+] Starting scan for http://example.com...'')],
        slept = 0, played = [], scans = None, HAS_PYGAME = False, mixer_error = None \<rparr>)"
    by (simp add: scan_website_def scan_intro_eq scan_progress_eq then_do_Inr then_do_Inl
        fresh_world_def)
  have b: "fst (scan_finish now f d w) = Inr d"
    using scan_finish_returns [of now f d w] by blast
  have c: "scan_finish example_time (OpenFails ''Permission denied'') example_record fresh_world =
     (Inr example_record,
      \<lparr> stdout = [completed, colorize RED ''[!] Failed to save scan: Permission denied''],
        slept = 0, played = [], scans = Some [], HAS_PYGAME = False, mixer_error = None \<rparr>)"
    using scan_finish_open_fails by blast
  show ?thesis by (intro conjI r n a b c)
qed

lemma save_scan_WriteFails:
  "scans (snd (save_scan now (WriteFails n m) d w)) =
     Some (put_file (scan_filename now) (take n (json_dumps d)) (files_of w))"
  by (simp add: save_scan_cases save_attempt_WriteFails scans_print_line)

lemma save_scan_OpenFails:
  "scans (snd (save_scan now (OpenFails m) d w)) = Some (files_of w)"
  by (simp add: save_scan_cases save_attempt_OpenFails scans_print_line)

lemma save_scan_MakedirsFails:
  "scans w = None \<Longrightarrow> scans (snd (save_scan now (MakedirsFails m) d w)) = None"
  by (simp add: save_scan_cases save_attempt_MakedirsFails scans_print_line)

lemma scan_filename_example: "scan_filename example_time = ''scan_20261103_230405.json''"
  by code_simp

subsection \<open>The file of a saved scan\<close>

text \<open>
  C8, as the code has it. \<open>save_scan\<close> never raises and writes straight to the final
  path, with no temporary file: without a fault that path holds the whole serialized
  record; when the write fails after \<open>n\<close> characters it holds the first \<open>n\<close>
  characters of it; when \<open>open\<close> fails the files of the directory are as before; when
  \<open>os.makedirs\<close> fails there is still no directory.
\<close>

theorem save_scan_in_place:
  "fst (save_scan now f d w) = Inr () \<and>
   read_file (scan_filename now) (snd (save_scan now NoFault d w)) = Some (json_dumps d) \<and>
   read_file (scan_filename now) (snd (save_scan now (WriteFails n m) d w)) =
     Some (take n (json_dumps d)) \<and>
   files_of (snd (save_scan now (OpenFails m) d w)) = files_of w \<and>
   scans (snd (save_scan now (MakedirsFails m) d (w\<lparr>scans := None\<rparr>))) = None"
proof (intro conjI)
  show "fst (save_scan now f d w) = Inr ()"
    by (rule save_scan_returns)
  show "read_file (scan_filename now) (snd (save_scan now NoFault d w)) = Some (json_dumps d)"
    by (simp add: read_file_def files_of_def save_scan_NoFault map_of_put_file_same)
  show "read_file (scan_filename now) (snd (save_scan now (WriteFails n m) d w)) =
     Some (take n (json_dumps d))"
    by (simp add: read_file_def files_of_def save_scan_WriteFails map_of_put_file_same)
  show "files_of (snd (save_scan now (OpenFails m) d w)) = files_of w"
    by (simp add: files_of_def save_scan_OpenFails)
  show "scans (snd (save_scan now (MakedirsFails m) d (w\<lparr>scans := None\<rparr>))) = None"
    by (simp add: save_scan_MakedirsFails)
qed

lemma take_10_example:
  "take 10 (json_dumps example_record) = CHR ''{'' # CHR 0x0A # ''    '' @ [CHR 0x22] @ ''url''"
  by code_simp

lemma loads_partial:
  "json_loads (CHR ''{'' # CHR 0x0A # ''    '' @ [CHR 0x22] @ ''url'') = Inl JSONDecodeError"
  by code_simp

text \<open>
  C8, against the claim. A save whose write fails after 10 characters changes the
  directory: the final path, which did not exist, now holds the first 10 characters of
  the report, and reading it back as \<open>display_scan_details\<close> does raises JSONDecodeError.
\<close>

theorem save_scan_partial_file:
  "read_file ''scan_20261103_230405.json'' fresh_world = None \<and>
   read_file ''scan_20261103_230405.json''
     (snd (save_scan example_time (WriteFails 10 ''No space left on device'') example_record
        fresh_world)) = Some (CHR ''{'' # CHR 0x0A # ''    '' @ [CHR 0x22] @ ''url'') \<and>
   load_scan_data ''scan_20261103_230405.json''
     (snd (save_scan example_time (WriteFails 10 ''No space left on device'') example_record
        fresh_world)) = Inl JSONDecodeError"
proof -
  have r: "read_file ''scan_20261103_230405.json''
     (snd (save_scan example_time (WriteFails 10 ''No space left on device'') example_record
        fresh_world)) = Some (CHR ''{'' # CHR 0x0A # ''    '' @ [CHR 0x22] @ ''url'')"
    by (simp only: read_file_def files_of_def save_scan_WriteFails scan_filename_example
        take_10_example option.case map_of_put_file_same)
  have n: "read_file ''scan_20261103_230405.json'' fresh_world = None"
    by (simp add: read_file_def files_of_def fresh_world_def)
  have l: "load_scan_data ''scan_20261103_230405.json''
     (snd (save_scan example_time (WriteFails 10 ''No space left on device'') example_record
        fresh_world)) = Inl JSONDecodeError"
    by (simp only: load_scan_data_def r option.case loads_partial)
  show ?thesis by (intro conjI n r l)
qed

subsection \<open>A target that is no url\<close>

lemma scan_time_example:
  "strftime ''%Y-%m-%d %H:%M:%S'' example_time = ''2026-11-03 23:04:05''"
  by code_simp

text \<open>
  C5, against the claim. For the target \<open>not a url\<close> the first phase of
  \<open>scan_website\<close> returns normally, with the string as the url of the record, and the call
  ends as it does for every url: with AttributeError at line 77, after the banner and the
  starting message that names the string.
\<close>

theorem scan_website_not_a_url:
  "fst (scan_intro ''not a url'' example_time fresh_world) =
     Inr (''not a url'', ''2026-11-03 23:04:05'') \<and>
   scan_website ''not a url'' example_env fresh_world =
     (Inl (AttributeError ''BLUE''),
      \<lparr> stdout = [colorize GREEN banner_text,
                   colorize YELLOW (CHR 0x0A # ''[+] Starting scan for not a url...'')],
        slept = 0, played = [], scans = None, HAS_PYGAME = False, mixer_error = None \<rparr>)"
proof -
  have a: "fst (scan_intro ''not a url'' example_time fresh_world) =
     Inr (''not a url'', ''2026-11-03 23:04:05'')"
    by (simp only: scan_intro_eq fst_conv scan_time_example)
  have b: "scan_website ''not a url'' example_env fresh_world =
     (Inl (AttributeError ''BLUE''),
      \<lparr> stdout = [colorize GREEN banner_text,
                   colorize YELLOW (CHR 0x0A # ''[+] Starting scan for not a url...'')],
        slept = 0, played = [], scans = None, HAS_PYGAME = False, mixer_error = None \<rparr>)"
    by (simp add: scan_website_def scan_intro_eq scan_progress_eq then_do_Inr then_do_Inl
        fresh_world_def del: strftime.simps)
  show ?thesis by (intro conjI a b)
qed

text \<open>
  C5, as the code has it. \<open>scan_website\<close> does not validate its target: for every
  string, the first phase (lines 67 to 74) prints the banner and the starting message
  with the string in it, and returns the string unchanged as the url of the record.
\<close>

theorem scan_intro_accepts_every_target:
  "scan_intro url now w =
     (Inr (url, strftime ''%Y-%m-%d %H:%M:%S'' now),
      w\<lparr>stdout := stdout w @ [colorize GREEN banner_text,
            colorize YELLOW (CHR 0x0A # ''[+] Starting scan for '' @ url @ ''...'')]\<rparr>)"
  by (rule scan_intro_eq)

subsection \<open>File names and the order of the clock\<close>

lemma of_char_digit_char: "(of_char (digit_char d) :: nat) = 48 + d mod 10"
proof -
  have "(48 + d mod 10) mod 256 = 48 + d mod 10"
    by (rule mod_less) (simp add: less_trans [OF mod_less_divisor [of 10 d]] add.commute trans_less_add2)
  then show ?thesis by (simp add: digit_char_def)
qed

lemma digit_char_less: "d < 10 \<Longrightarrow> e < 10 \<Longrightarrow> digit_char d < digit_char e \<longleftrightarrow> d < e"
  by (simp add: less_char_def of_char_digit_char)

lemma digit_char_eq: "d < 10 \<Longrightarrow> e < 10 \<Longrightarrow> digit_char d = digit_char e \<longleftrightarrow> d = e"
proof -
  assume "d < 10" "e < 10"
  have "digit_char d = digit_char e \<longleftrightarrow> (of_char (digit_char d) :: nat) = of_char (digit_char e)"
    by simp
  also have "\<dots> \<longleftrightarrow> d = e"
    using \<open>d < 10\<close> \<open>e < 10\<close> by (simp only: of_char_digit_char) simp
  finally show ?thesis .
qed

lemma digit_char_not_dot: "digit_char d \<noteq> CHR ''.''"
proof
  assume "digit_char d = CHR ''.''"
  then have "(of_char (digit_char d) :: nat) = of_char (CHR ''.'')" by simp
  then show False by (simp only: of_char_digit_char) simp
qed

lemma digit_char_not_underscore: "digit_char d \<noteq> CHR ''_''"
proof
  assume "digit_char d = CHR ''_''"
  then have "(of_char (digit_char d) :: nat) = of_char (CHR ''_'')" by simp
  then show False by (simp only: of_char_digit_char) simp
qed

lemma length_zdigits: "length (zdigits k n) = k"
  by (induction k arbitrary: n) simp_all

lemma zdigits_no_dot: "CHR ''.'' \<notin> set (zdigits k n)"
  by (induction k arbitrary: n) (simp_all add: digit_char_not_dot [symmetric])

lemma zdigits_no_underscore: "CHR ''_'' \<notin> set (zdigits k n)"
  by (induction k arbitrary: n) (simp_all add: digit_char_not_underscore [symmetric])

lemma zdigits_less: "n < 10 ^ k \<Longrightarrow> m < 10 ^ k \<Longrightarrow> zdigits k n < zdigits k m \<longleftrightarrow> n < m"
proof (induction k arbitrary: n m)
  case 0
  then show ?case by simp
next
  case (Suc k)
  have dn: "n div 10 ^ k < 10" using Suc.prems(1) by (simp add: less_mult_imp_div_less mult.commute)
  have dm: "m div 10 ^ k < 10" using Suc.prems(2) by (simp add: less_mult_imp_div_less mult.commute)
  have rn: "n mod 10 ^ k < 10 ^ k" and rm: "m mod 10 ^ k < 10 ^ k" by simp_all
  have "n < m \<longleftrightarrow> n div 10 ^ k < m div 10 ^ k \<or> (n div 10 ^ k = m div 10 ^ k \<and> n mod 10 ^ k < m mod 10 ^ k)"
  proof -
    define p :: nat where "p = 10 ^ k"
    have p: "0 < p" by (simp add: p_def)
    have n: "n = (n div p) * p + n mod p" and m: "m = (m div p) * p + m mod p" by simp_all
    show ?thesis
      unfolding p_def [symmetric]
    proof
      assume "n < m"
      then have "n div p \<le> m div p" by (simp add: div_le_mono)
      then show "n div p < m div p \<or> n div p = m div p \<and> n mod p < m mod p"
        using \<open>n < m\<close> n m by (metis le_neq_implies_less nat_add_left_cancel_less)
    next
      assume "n div p < m div p \<or> n div p = m div p \<and> n mod p < m mod p"
      then show "n < m"
      proof
        assume "n div p < m div p"
        then show "n < m" using div_le_mono [of m n p] by (meson not_le)
      next
        assume "n div p = m div p \<and> n mod p < m mod p"
        then show "n < m" using n m by (metis nat_add_left_cancel_less)
      qed
    qed
  qed
  then show ?case
    using Suc.IH [OF rn rm] by (simp add: digit_char_less [OF dn dm] digit_char_eq [OF dn dm])
qed

lemma zdigits_eq: "n < 10 ^ k \<Longrightarrow> m < 10 ^ k \<Longrightarrow> zdigits k n = zdigits k m \<longleftrightarrow> n = m"
proof -
  assume a: "n < 10 ^ k" "m < 10 ^ k"
  have "\<not> zdigits k n < zdigits k m \<and> \<not> zdigits k m < zdigits k n \<longleftrightarrow> n = m"
    using zdigits_less [OF a] zdigits_less [OF a(2) a(1)] by auto
  then show ?thesis by auto
qed

lemma append_less_append:
  fixes a b :: "'a::linorder list"
  shows "length a = length b \<Longrightarrow> a @ x < b @ y \<longleftrightarrow> a < b \<or> (a = b \<and> x < y)"
  by (induction a b rule: list_induct2) auto

lemma append_less_same:
  fixes a :: "'a::linorder list"
  shows "a @ x < a @ y \<longleftrightarrow> x < y"
  by (simp add: append_less_append)

lemma strftime_file:
  "strftime ''%Y%m%d_%H%M%S'' t =
     zdigits 4 (year t) @ zdigits 2 (month t) @ zdigits 2 (day t) @ ''_'' @
     zdigits 2 (hour t) @ zdigits 2 (minute t) @ zdigits 2 (second t)"
  by (simp add: directive_def)

lemma days_in_month_le: "days_in_month y m \<le> 31"
  by (simp add: days_in_month_def)

lemma valid_datetime_bounds:
  assumes "valid_datetime t"
  shows "year t < 10 ^ 4" "month t < 10 ^ 2" "day t < 10 ^ 2"
    "hour t < 10 ^ 2" "minute t < 10 ^ 2" "second t < 10 ^ 2"
proof -
  from assms have "day t \<le> days_in_month (year t) (month t)"
    by (simp add: valid_datetime_def)
  then have "day t \<le> 31" using days_in_month_le [of "year t" "month t"] by linarith
  then show "day t < 10 ^ 2" by simp
  from assms show "year t < 10 ^ 4" "month t < 10 ^ 2" "hour t < 10 ^ 2" "minute t < 10 ^ 2"
    "second t < 10 ^ 2"
    by (simp_all add: valid_datetime_def)
qed

lemma scan_filename_eq_iff:
  assumes "valid_datetime a" "valid_datetime b"
  shows "scan_filename a = scan_filename b \<longleftrightarrow> same_second a b"
  using valid_datetime_bounds [OF assms(1)] valid_datetime_bounds [OF assms(2)]
  by (simp only: scan_filename_def strftime_file same_second_def append_eq_append_conv
      length_zdigits append_same_eq same_append_eq zdigits_eq simp_thms)

lemma scan_filename_less_iff:
  assumes "valid_datetime a" "valid_datetime b"
  shows "scan_filename a < scan_filename b \<longleftrightarrow> earlier_second a b"
  using valid_datetime_bounds [OF assms(1)] valid_datetime_bounds [OF assms(2)]
  by (simp add: scan_filename_def strftime_file earlier_second_def append_less_append
      append_less_same length_zdigits zdigits_less zdigits_eq del: strftime.simps zdigits.simps)

subsection \<open>The date view_history reads from a file name\<close>

lemma replace_json_suffix:
  "CHR ''.'' \<notin> set s \<Longrightarrow> str_replace ''.json'' [] (s @ ''.json'') = s"
  by (induction s) auto

lemma split_no_sep: "CHR ''_'' \<notin> set a \<Longrightarrow> split_loop ''_'' acc a = [acc @ a]"
  by (induction a arbitrary: acc) auto

lemma split_at_sep:
  "CHR ''_'' \<notin> set a \<Longrightarrow>
   split_loop ''_'' acc (a @ CHR ''_'' # rest) = (acc @ a) # split_loop ''_'' [] rest"
  by (induction a arbitrary: acc) auto

lemma strftime_date: "strftime ''%Y%m%d'' t = zdigits 4 (year t) @ zdigits 2 (month t) @ zdigits 2 (day t)"
  by (simp add: directive_def)

lemma strftime_time: "strftime ''%H%M%S'' t = zdigits 2 (hour t) @ zdigits 2 (minute t) @ zdigits 2 (second t)"
  by (simp add: directive_def)

lemma scan_filename_parts:
  "scan_filename t = (''scan'' @ CHR ''_'' # strftime ''%Y%m%d'' t @ CHR ''_'' # strftime ''%H%M%S'' t) @ ''.json''"
  by (simp add: scan_filename_def strftime_file strftime_date strftime_time del: strftime.simps)

lemma strftime_date_plain:
  "CHR ''.'' \<notin> set (strftime ''%Y%m%d'' t)" "CHR ''_'' \<notin> set (strftime ''%Y%m%d'' t)"
  "length (strftime ''%Y%m%d'' t) = 8"
  by (simp_all add: strftime_date zdigits_no_dot zdigits_no_underscore length_zdigits
      del: strftime.simps)

lemma strftime_time_plain:
  "CHR ''.'' \<notin> set (strftime ''%H%M%S'' t)" "CHR ''_'' \<notin> set (strftime ''%H%M%S'' t)"
  by (simp_all add: strftime_time zdigits_no_dot zdigits_no_underscore del: strftime.simps)

lemma split_scan_filename:
  "str_split (str_replace ''.json'' [] (scan_filename t)) ''_'' =
     Inr [''scan'', strftime ''%Y%m%d'' t, strftime ''%H%M%S'' t]"
proof -
  have "CHR ''.'' \<notin> set (''scan'' @ CHR ''_'' # strftime ''%Y%m%d'' t @ CHR ''_'' # strftime ''%H%M%S'' t)"
    using strftime_date_plain(1) [of t] strftime_time_plain(1) [of t]
    by (simp del: strftime.simps)
  then have r: "str_replace ''.json'' [] (scan_filename t) =
      ''scan'' @ CHR ''_'' # strftime ''%Y%m%d'' t @ CHR ''_'' # strftime ''%H%M%S'' t"
    unfolding scan_filename_parts by (rule replace_json_suffix)
  have "split_loop ''_'' [] (''scan'' @ CHR ''_'' # strftime ''%Y%m%d'' t @ CHR ''_'' # strftime ''%H%M%S'' t) =
      ''scan'' # split_loop ''_'' [] (strftime ''%Y%m%d'' t @ CHR ''_'' # strftime ''%H%M%S'' t)"
    using split_at_sep [where a = "''scan''" and acc = "[]"] by simp
  also have "split_loop ''_'' [] (strftime ''%Y%m%d'' t @ CHR ''_'' # strftime ''%H%M%S'' t) =
      strftime ''%Y%m%d'' t # split_loop ''_'' [] (strftime ''%H%M%S'' t)"
    using split_at_sep [where a = "strftime ''%Y%m%d'' t" and acc = "[]"] strftime_date_plain(2) [of t]
    by (simp del: strftime.simps)
  also have "split_loop ''_'' [] (strftime ''%H%M%S'' t) = [strftime ''%H%M%S'' t]"
    using split_no_sep [where a = "strftime ''%H%M%S'' t" and acc = "[]"] strftime_time_plain(2) [of t]
    by (simp del: strftime.simps)
  finally show ?thesis
    by (simp only: str_split_def r) simp
qed

subsection \<open>strptime on a text that is too short\<close>

lemma match_alt_length: "match_alt a s = Some (m, r) \<Longrightarrow> length s = length a + length r"
  by (induction a s arbitrary: m r rule: match_alt.induct)
     (auto split: if_splits option.splits)

lemma match_group_length:
  assumes "(m, r) \<in> set (match_group alts s)"
  shows "\<exists>a \<in> set alts. length s = length a + length r"
proof -
  from assms obtain a where "a \<in> set alts" "match_alt a s = Some (m, r)"
    by (auto simp: match_group_def map_filter_def)
  then show ?thesis using match_alt_length by blast
qed

lemma match_groups_Cons:
  "(fs, r) \<in> set (match_groups ((g, alts) # gs) s) \<Longrightarrow>
   \<exists>m r1 fs'. (m, r1) \<in> set (match_group alts s) \<and> (fs', r) \<in> set (match_groups gs r1)"
  by auto

lemma match_groups_length:
  "(fs, r) \<in> set (match_groups gs s) \<Longrightarrow>
   \<forall>(g, alts) \<in> set gs. \<forall>a \<in> set alts. 1 \<le> length a \<Longrightarrow>
   length gs + length r \<le> length s"
proof (induction gs arbitrary: fs r s)
  case Nil
  then show ?case by simp
next
  case (Cons ga gs)
  obtain g alts where ga: "ga = (g, alts)" by (cases ga)
  from Cons.prems(1) obtain m r1 fs' where
    m: "(m, r1) \<in> set (match_group alts s)" and f: "(fs', r) \<in> set (match_groups gs r1)"
    unfolding ga using match_groups_Cons by blast
  from Cons.prems(2) have all: "\<forall>a \<in> set alts. 1 \<le> length a"
    and rest: "\<forall>(g, alts) \<in> set gs. \<forall>a \<in> set alts. 1 \<le> length a"
    by (simp_all add: ga)
  from match_group_length [OF m] all have "1 + length r1 \<le> length s"
    by auto
  moreover have "length gs + length r \<le> length r1"
    by (rule Cons.IH [OF f rest])
  ultimately show ?case by simp
qed

lemma format_regex_history:
  "format_regex ''%Y%m%d%H%M%S'' =
     Some [(Some (CHR ''Y''), [[dec_digits, dec_digits, dec_digits, dec_digits]]),
           (Some (CHR ''m''), [[''1'', ''012''], [''0'', nonzero_digits], [nonzero_digits]]),
           (Some (CHR ''d''), [[''3'', ''01''], [''12'', dec_digits], [''0'', nonzero_digits],
                               [nonzero_digits], ['' '', nonzero_digits]]),
           (Some (CHR ''H''), [[''2'', ''0123''], [''01'', dec_digits], [dec_digits]]),
           (Some (CHR ''M''), [[''012345'', dec_digits], [dec_digits]]),
           (Some (CHR ''S''), [[''6'', ''01''], [''012345'', dec_digits], [dec_digits]])]"
  by (simp add: directive_regex_def)

lemma match_groups_width:
  "list_all2 (\<lambda>(g, alts) k. \<forall>a \<in> set alts. k \<le> length a) gs ks \<Longrightarrow>
   (fs, r) \<in> set (match_groups gs s) \<Longrightarrow> sum_list ks + length r \<le> length s"
proof (induction gs ks arbitrary: fs r s rule: list_all2_induct)
  case Nil
  then show ?case by simp
next
  case (Cons ga gs k ks)
  obtain g alts where ga: "ga = (g, alts)" by (cases ga)
  from Cons.prems obtain m r1 fs' where
    m: "(m, r1) \<in> set (match_group alts s)" and f: "(fs', r) \<in> set (match_groups gs r1)"
    unfolding ga using match_groups_Cons by blast
  from Cons.hyps(1) have all: "\<forall>a \<in> set alts. k \<le> length a"
    by (simp add: ga)
  from match_group_length [OF m] all have "k + length r1 \<le> length s"
    by auto
  moreover have "sum_list ks + length r \<le> length r1"
    by (rule Cons.IH [OF f])
  ultimately show ?case by simp
qed

lemma match_groups_too_short:
  assumes "list_all2 (\<lambda>(g, alts) k. \<forall>a \<in> set alts. k \<le> length a) gs ks"
    and "length s < sum_list ks"
  shows "match_groups gs s = []"
proof (cases "match_groups gs s")
  case Nil
  then show ?thesis .
next
  case (Cons p ps)
  obtain fs r where "p = (fs, r)" by (cases p)
  with Cons have "(fs, r) \<in> set (match_groups gs s)" by simp
  from match_groups_width [OF assms(1) this] assms(2) show ?thesis by simp
qed

lemma strptime_short:
  assumes "length s < 9"
  shows "strptime s ''%Y%m%d%H%M%S'' = Inl ValueError"
proof -
  have "match_groups
     [(Some (CHR ''Y''), [[dec_digits, dec_digits, dec_digits, dec_digits]]),
      (Some (CHR ''m''), [[''1'', ''012''], [''0'', nonzero_digits], [nonzero_digits]]),
      (Some (CHR ''d''), [[''3'', ''01''], [''12'', dec_digits], [''0'', nonzero_digits],
                          [nonzero_digits], ['' '', nonzero_digits]]),
      (Some (CHR ''H''), [[''2'', ''0123''], [''01'', dec_digits], [dec_digits]]),
      (Some (CHR ''M''), [[''012345'', dec_digits], [dec_digits]]),
      (Some (CHR ''S''), [[''6'', ''01''], [''012345'', dec_digits], [dec_digits]])] s = []"
    by (rule match_groups_too_short [where ks = "[4, 1, 1, 1, 1, 1]"]) (simp_all add: assms)
  then show ?thesis
    by (simp only: strptime_def format_regex_history option.case list.case)
qed

lemma history_date_scan_filename: "history_date (scan_filename t) = Inl ValueError"
proof -
  have "list_index [''scan'', strftime ''%Y%m%d'' t, strftime ''%H%M%S'' t] 1 =
      Inr (strftime ''%Y%m%d'' t)"
    by (simp add: list_index_def del: strftime.simps)
  moreover have "strptime (strftime ''%Y%m%d'' t) ''%Y%m%d%H%M%S'' = Inl ValueError"
    by (rule strptime_short) (simp add: strftime_date_plain(3) del: strftime.simps)
  ultimately show ?thesis
    by (simp only: history_date_def split_scan_filename sum.case)
qed

lemma history_loop_raises:
  "history_date scan_file = Inl e \<Longrightarrow> history_loop i (scan_file # rest) w = (Inl e, w)"
  by simp

lemma sorted_scans_hd:
  assumes "listdir w \<noteq> []"
  obtains x xs where "take 10 (sorted_scans w) = x # xs" "x \<in> set (listdir w)"
proof -
  have "length (sorted_scans w) = length (listdir w)" by (simp add: sorted_scans_def)
  with assms have "sorted_scans w \<noteq> []" by auto
  then obtain x ys where xs: "sorted_scans w = x # ys" by (cases "sorted_scans w") auto
  then have "x \<in> set (sorted_scans w)" by simp
  then have "x \<in> set (listdir w)" by (simp add: sorted_scans_def)
  moreover from xs have "take 10 (sorted_scans w) = x # take 9 ys" by simp
  ultimately show ?thesis using that by blast
qed

lemma listdir_print_line: "listdir (print_line a w) = listdir w"
  by (simp add: listdir_def print_line_def)

lemma listdir_nonempty_scans: "listdir w \<noteq> [] \<Longrightarrow> scans w \<noteq> None"
  by (cases "scans w") (simp_all add: listdir_def)

lemma view_history_raises:
  assumes "listdir w = map scan_filename ts" "ts \<noteq> []"
  shows "view_history selection w =
     (Inl ValueError,
      w\<lparr>stdout := stdout w @ [colorize GREEN banner_text,
            CHR 0x0A # ''===== Scan History ====='' @ [CHR 0x0A]]\<rparr>)"
proof -
  define w2 where "w2 = print_line (CHR 0x0A # ''===== Scan History ====='' @ [CHR 0x0A])
      (print_line (colorize GREEN banner_text) w)"
  have l2: "listdir w2 = map scan_filename ts"
    by (simp add: w2_def listdir_print_line assms(1))
  with assms(2) have ne: "listdir w2 \<noteq> []" by simp
  then have sc: "scans w2 \<noteq> None" by (rule listdir_nonempty_scans)
  from ne obtain x xs where tk: "take 10 (sorted_scans w2) = x # xs" and x: "x \<in> set (listdir w2)"
    by (rule sorted_scans_hd)
  from x l2 obtain t where "x = scan_filename t" by auto
  then have "history_date x = Inl ValueError" by (simp add: history_date_scan_filename)
  then have loop: "history_loop 0 (take 10 (sorted_scans w2)) w2 = (Inl ValueError, w2)"
    unfolding tk by (rule history_loop_raises)
  have "view_history selection w =
      (if scans w2 = None \<or> listdir w2 = []
       then cprint ''YELLOW'' ''No previous scans found.'' w2
       else then_do (history_loop 0 (take 10 (sorted_scans w2)) w2)
              (\<lambda>_ w3. selection (sorted_scans w2) w3))"
    by (simp only: view_history_def banner_def cprint_GREEN then_do_Inr Let_def w2_def)
  moreover from sc obtain files where "scans w2 = Some files" by (cases "scans w2") auto
  ultimately have "view_history selection w = (Inl ValueError, w2)"
    using ne by (simp add: loop then_do_Inl)
  then show ?thesis by (simp add: w2_def print_line_def)
qed

subsection \<open>The directory after a sequence of saves\<close>

lemma saved_Nil: "saved [] w = w"
  by (simp add: saved_def)

lemma saved_Cons: "saved ((t, d) # rest) w = saved rest (snd (save_scan t NoFault d w))"
  by (simp add: saved_def)

lemma listdir_files_of: "listdir w = map fst (files_of w)"
  by (cases "scans w") (simp_all add: listdir_def files_of_def)

lemma listdir_save_scan:
  "listdir (snd (save_scan t NoFault d w)) =
     (if scan_filename t \<in> set (listdir w) then listdir w else listdir w @ [scan_filename t])"
  by (simp add: listdir_def save_scan_NoFault names_put_file listdir_files_of [symmetric])

lemma read_file_save_same:
  "read_file (scan_filename t) (snd (save_scan t NoFault d w)) = Some (json_dumps d)"
  by (simp add: read_file_def files_of_def save_scan_NoFault map_of_put_file_same)

lemma read_file_save_other:
  "n \<noteq> scan_filename t \<Longrightarrow> read_file n (snd (save_scan t NoFault d w)) = read_file n w"
  by (simp add: read_file_def save_scan_NoFault map_of_put_file_other)
     (simp add: files_of_def save_scan_NoFault map_of_put_file_other)

lemma listdir_saved:
  "distinct (map (scan_filename \<circ> fst) reports) \<Longrightarrow>
   set (map (scan_filename \<circ> fst) reports) \<inter> set (listdir w) = {} \<Longrightarrow>
   listdir (saved reports w) = listdir w @ map (scan_filename \<circ> fst) reports"
proof (induction reports arbitrary: w)
  case Nil
  then show ?case by (simp add: saved_Nil)
next
  case (Cons r reports)
  obtain t d where r: "r = (t, d)" by (cases r)
  from Cons.prems(2) have new: "scan_filename t \<notin> set (listdir w)"
    by (simp add: r)
  then have l: "listdir (snd (save_scan t NoFault d w)) = listdir w @ [scan_filename t]"
    by (simp add: listdir_save_scan)
  from Cons.prems have d: "distinct (map (scan_filename \<circ> fst) reports)"
    and i: "set (map (scan_filename \<circ> fst) reports) \<inter>
            set (listdir (snd (save_scan t NoFault d w))) = {}"
    by (auto simp: r l comp_def)
  show ?case
    by (simp add: r saved_Cons Cons.IH [OF d i] l)
qed

lemma filenames_strictly_sorted:
  assumes "list_all valid_datetime ts" "sorted_wrt earlier_second ts"
  shows "sorted_wrt (<) (map scan_filename ts)"
proof -
  have "sorted_wrt (\<lambda>a b. scan_filename a < scan_filename b) ts"
  proof (rule sorted_wrt_mono_rel [OF _ assms(2)])
    fix a b
    assume "a \<in> set ts" "b \<in> set ts" "earlier_second a b"
    with assms(1) show "scan_filename a < scan_filename b"
      by (simp add: scan_filename_less_iff list_all_iff)
  qed
  then show ?thesis by (simp add: sorted_wrt_map)
qed

lemma sorted_scans_saved:
  assumes "list_all valid_datetime (map fst reports)"
    and "sorted_wrt earlier_second (map fst reports)"
    and "listdir w = []"
  shows "sorted_scans (saved reports w) = rev (map (scan_filename \<circ> fst) reports)"
proof -
  have s: "sorted_wrt (<) (map scan_filename (map fst reports))"
    by (rule filenames_strictly_sorted [OF assms(1,2)])
  then have sd: "sorted (map (scan_filename \<circ> fst) reports) \<and>
      distinct (map (scan_filename \<circ> fst) reports)"
    by (simp add: strict_sorted_iff)
  then have "listdir (saved reports w) = map (scan_filename \<circ> fst) reports"
    using listdir_saved [of reports w] assms(3) by simp
  moreover have "sort (map (scan_filename \<circ> fst) reports) = map (scan_filename \<circ> fst) reports"
    using sd by (simp add: sorted_sort_id)
  ultimately show ?thesis by (simp add: sorted_scans_def)
qed

subsection \<open>The loop of view_history\<close>

lemma history_loop_prints:
  "map history_date names = map Inr dates \<Longrightarrow>
   history_loop i names w = (Inr (), w\<lparr>stdout := stdout w @ summaries i names dates\<rparr>)"
proof (induction names arbitrary: i dates w)
  case Nil
  then show ?case by simp
next
  case (Cons n names)
  then obtain d ds where d: "dates = d # ds" "history_date n = Inr d"
      "map history_date names = map Inr ds"
    by (cases dates) auto
  show ?case
    by (simp add: d Cons.IH [OF d(3)] print_line_def)
qed

lemma history_loop_raises_at:
  "map history_date pre = map Inr dates \<Longrightarrow> history_date x = Inl e \<Longrightarrow>
   history_loop i (pre @ x # post) w = (Inl e, w\<lparr>stdout := stdout w @ summaries i pre dates\<rparr>)"
proof (induction pre arbitrary: i dates w)
  case Nil
  then show ?case by simp
next
  case (Cons n pre)
  then obtain d ds where d: "dates = d # ds" "history_date n = Inr d"
      "map history_date pre = map Inr ds"
    by (cases dates) auto
  show ?case
    by (simp add: d Cons.IH [OF d(3) Cons.prems(2)] print_line_def)
qed

lemma history_loop_raises_member:
  "x \<in> set names \<Longrightarrow> history_date x = Inl e \<Longrightarrow> \<exists>e'. fst (history_loop i names w) = Inl e'"
proof (induction names arbitrary: i w)
  case Nil
  then show ?case by simp
next
  case (Cons n names)
  show ?case
  proof (cases "history_date n")
    case (Inl e')
    then show ?thesis by simp
  next
    case (Inr d)
    with Cons.prems have "x \<in> set names" by auto
    from Cons.IH [OF this Cons.prems(2)] show ?thesis by (simp add: Inr)
  qed
qed

lemma sorted_scans_print_line: "sorted_scans (print_line a w) = sorted_scans w"
  by (simp add: sorted_scans_def listdir_print_line)

lemma view_history_unfold:
  assumes "listdir w \<noteq> []"
  shows "view_history selection w =
     then_do (history_loop 0 (take 10 (sorted_scans w))
                (w\<lparr>stdout := stdout w @ [colorize GREEN banner_text,
                      CHR 0x0A # ''===== Scan History ====='' @ [CHR 0x0A]]\<rparr>))
       (\<lambda>_ w3. selection (sorted_scans w) w3)"
proof -
  define w2 where "w2 = print_line (CHR 0x0A # ''===== Scan History ====='' @ [CHR 0x0A])
      (print_line (colorize GREEN banner_text) w)"
  have l2: "listdir w2 = listdir w"
    by (simp add: w2_def listdir_print_line)
  with assms have ne: "listdir w2 \<noteq> []" by simp
  then have "scans w2 \<noteq> None" by (rule listdir_nonempty_scans)
  then obtain files where sc: "scans w2 = Some files" by (cases "scans w2") auto
  have s2: "sorted_scans w2 = sorted_scans w"
    by (simp add: w2_def sorted_scans_print_line)
  have "view_history selection w =
      (if scans w2 = None \<or> listdir w2 = []
       then cprint ''YELLOW'' ''No previous scans found.'' w2
       else then_do (history_loop 0 (take 10 (sorted_scans w2)) w2)
              (\<lambda>_ w3. selection (sorted_scans w2) w3))"
    by (simp only: view_history_def banner_def cprint_GREEN then_do_Inr Let_def w2_def)
  then have "view_history selection w =
      then_do (history_loop 0 (take 10 (sorted_scans w)) w2)
        (\<lambda>_ w3. selection (sorted_scans w) w3)"
    using ne sc by (simp add: s2)
  moreover have "w2 = w\<lparr>stdout := stdout w @ [colorize GREEN banner_text,
      CHR 0x0A # ''===== Scan History ====='' @ [CHR 0x0A]]\<rparr>"
    by (simp add: w2_def print_line_def)
  ultimately show ?thesis by simp
qed

lemma view_history_prints:
  assumes "listdir w \<noteq> []"
    and "map history_date (take 10 (sorted_scans w)) = map Inr dates"
  shows "view_history selection w =
     selection (sorted_scans w)
       (w\<lparr>stdout := stdout w @ [colorize GREEN banner_text,
              CHR 0x0A # ''===== Scan History ====='' @ [CHR 0x0A]] @
              summaries 0 (take 10 (sorted_scans w)) dates\<rparr>)"
  by (simp add: view_history_unfold [OF assms(1)] history_loop_prints [OF assms(2)] then_do_Inr)

lemma view_history_raises_at:
  assumes "take 10 (sorted_scans w) = pre @ x # post"
    and "map history_date pre = map Inr dates"
    and "history_date x = Inl e"
  shows "view_history selection w =
     (Inl e,
      w\<lparr>stdout := stdout w @ [colorize GREEN banner_text,
             CHR 0x0A # ''===== Scan History ====='' @ [CHR 0x0A]] @ summaries 0 pre dates\<rparr>)"
proof -
  from assms(1) have "sorted_scans w \<noteq> []" by auto
  then have "listdir w \<noteq> []" by (auto simp: sorted_scans_def)
  from view_history_unfold [OF this] show ?thesis
    by (simp add: assms(1) history_loop_raises_at [OF assms(2,3)] then_do_Inl)
qed

lemma view_history_raises_member:
  assumes "x \<in> set (take 10 (sorted_scans w))" and "history_date x = Inl e"
  shows "\<exists>e'. fst (view_history selection w) = Inl e'"
proof -
  from assms(1) have "sorted_scans w \<noteq> []" by auto
  then have ne: "listdir w \<noteq> []" by (auto simp: sorted_scans_def)
  define w2 where "w2 = w\<lparr>stdout := stdout w @ [colorize GREEN banner_text,
      CHR 0x0A # ''===== Scan History ====='' @ [CHR 0x0A]]\<rparr>"
  from history_loop_raises_member [OF assms, of 0 w2]
  obtain e' where "fst (history_loop 0 (take 10 (sorted_scans w)) w2) = Inl e'" by blast
  then obtain w' where "history_loop 0 (take 10 (sorted_scans w)) w2 = (Inl e', w')"
    by (cases "history_loop 0 (take 10 (sorted_scans w)) w2") simp
  moreover have "view_history selection w =
      then_do (history_loop 0 (take 10 (sorted_scans w)) w2)
        (\<lambda>_ w3. selection (sorted_scans w) w3)"
    unfolding w2_def by (rule view_history_unfold [OF ne])
  ultimately have "view_history selection w = (Inl e', w')"
    by (simp add: then_do_Inl del: history_loop.simps)
  then show ?thesis by simp
qed

text \<open>
  C7, as the code has it. \<open>view_history\<close> takes no limit: it sorts the names of the
  directory in descending order and goes through the first 10 of them (line 146). When
  the dates of these names parse, it prints the banner, the heading and one numbered
  summary for each of them, in that order, and then reads the selection. After reports
  have been saved at clock readings of strictly increasing seconds into an empty
  directory, the names it goes through are those of the last 10 reports, the most recent
  first; after 8 saves they are all 8.
\<close>

theorem history_names_after_saves:
  "sorted_scans w = rev (sort (listdir w)) \<and>
   (listdir w \<noteq> [] \<and> map history_date (take 10 (sorted_scans w)) = map Inr dates \<longrightarrow>
      view_history selection w =
        selection (sorted_scans w)
          (w\<lparr>stdout := stdout w @ [colorize GREEN banner_text, CHR 0x0A # ''===== Scan History ====='' @ [CHR 0x0A]] @
                 summaries 0 (take 10 (sorted_scans w)) dates\<rparr>)) \<and>
   (list_all valid_datetime (map fst reports) \<and> sorted_wrt earlier_second (map fst reports) \<and>
    listdir w = [] \<longrightarrow>
      sorted_scans (saved reports w) = rev (map (scan_filename \<circ> fst) reports) \<and>
      take 10 (sorted_scans (saved reports w)) =
        take 10 (rev (map (scan_filename \<circ> fst) reports)) \<and>
      (length reports = 8 \<longrightarrow>
         take 10 (sorted_scans (saved reports w)) = rev (map (scan_filename \<circ> fst) reports)) \<and>
      (reports \<noteq> [] \<longrightarrow>
         view_history selection (saved reports w) =
           then_do
             (history_loop 0 (take 10 (rev (map (scan_filename \<circ> fst) reports)))
                ((saved reports w)\<lparr>stdout := stdout (saved reports w) @ [colorize GREEN banner_text, CHR 0x0A # ''===== Scan History ====='' @ [CHR 0x0A]]\<rparr>))
             (\<lambda>_ w3. selection (rev (map (scan_filename \<circ> fst) reports)) w3)))"
proof (intro conjI impI)
  show "sorted_scans w = rev (sort (listdir w))"
    by (simp add: sorted_scans_def)
  show "view_history selection w =
        selection (sorted_scans w)
          (w\<lparr>stdout := stdout w @ [colorize GREEN banner_text, CHR 0x0A # ''===== Scan History ====='' @ [CHR 0x0A]] @
                 summaries 0 (take 10 (sorted_scans w)) dates\<rparr>)"
    if "listdir w \<noteq> [] \<and> map history_date (take 10 (sorted_scans w)) = map Inr dates"
    using that view_history_prints by blast
  assume a: "list_all valid_datetime (map fst reports) \<and>
    sorted_wrt earlier_second (map fst reports) \<and> listdir w = []"
  then have s: "sorted_scans (saved reports w) = rev (map (scan_filename \<circ> fst) reports)"
    using sorted_scans_saved by blast
  show "sorted_scans (saved reports w) = rev (map (scan_filename \<circ> fst) reports)"
    by (rule s)
  show "take 10 (sorted_scans (saved reports w)) =
      take 10 (rev (map (scan_filename \<circ> fst) reports))"
    by (simp only: s)
  show "take 10 (sorted_scans (saved reports w)) = rev (map (scan_filename \<circ> fst) reports)"
    if "length reports = 8"
    using that by (simp add: s)
  show "view_history selection (saved reports w) =
           then_do
             (history_loop 0 (take 10 (rev (map (scan_filename \<circ> fst) reports)))
                ((saved reports w)\<lparr>stdout := stdout (saved reports w) @ [colorize GREEN banner_text, CHR 0x0A # ''===== Scan History ====='' @ [CHR 0x0A]]\<rparr>))
             (\<lambda>_ w3. selection (rev (map (scan_filename \<circ> fst) reports)) w3)"
    if "reports \<noteq> []"
  proof -
    from that s have "sorted_scans (saved reports w) \<noteq> []" by simp
    then have "listdir (saved reports w) \<noteq> []" by (auto simp: sorted_scans_def)
    from view_history_unfold [OF this, of selection] show ?thesis
      by (simp only: s)
  qed
qed

subsection \<open>Eight reports\<close>

lemma zdigits_examples:
  "zdigits 4 2026 = ''2026''" "zdigits 2 11 = ''11''" "zdigits 2 3 = ''03''"
  "zdigits 2 23 = ''23''" "zdigits 2 4 = ''04''" "zdigits 2 (Suc 0) = ''01''"
  "zdigits 2 1 = ''01''" "zdigits 2 2 = ''02''" "zdigits 2 5 = ''05''" "zdigits 2 6 = ''06''"
  "zdigits 2 7 = ''07''" "zdigits 2 8 = ''08''"
  by code_simp+

lemma eight_reports_valid: "list_all valid_datetime (map fst eight_reports)"
  by (simp add: eight_reports_def valid_datetime_def example_time_def days_in_month_def
      is_leap_def)

lemma eight_reports_sorted: "sorted_wrt earlier_second (map fst eight_reports)"
  by (simp add: eight_reports_def earlier_second_def example_time_def)

lemma eight_reports_names:
  "rev (map (scan_filename \<circ> fst) eight_reports) =
     [''scan_20261103_230408.json'', ''scan_20261103_230407.json'', ''scan_20261103_230406.json'',
      ''scan_20261103_230405.json'', ''scan_20261103_230404.json'', ''scan_20261103_230403.json'',
      ''scan_20261103_230402.json'', ''scan_20261103_230401.json'']"
  by (simp add: eight_reports_def scan_filename_def strftime_file example_time_def
      zdigits_examples del: strftime.simps zdigits.simps)

lemma listdir_fresh_world: "listdir fresh_world = []"
  by (simp add: listdir_def fresh_world_def)

lemma length_eight_reports: "length eight_reports = 8"
  by (simp add: eight_reports_def)

lemma valid_examples:
  "valid_datetime example_time" "valid_datetime later_time" "valid_datetime next_second"
  by (simp_all add: valid_datetime_def example_time_def later_time_def next_second_def
      days_in_month_def is_leap_def)

lemma scan_filename_later: "scan_filename later_time = ''scan_20261103_230405.json''"
  by (simp add: later_time_def scan_filename_def strftime_file example_time_def
      zdigits_examples del: strftime.simps zdigits.simps)

lemma scan_filename_next: "scan_filename next_second = ''scan_20261103_230406.json''"
  by (simp add: next_second_def scan_filename_def strftime_file example_time_def
      zdigits_examples del: strftime.simps zdigits.simps)

subsection \<open>The crowded directory\<close>

lemma scan_name_not_foreign: "''scan_20261103_230405.json'' \<notin> set foreign_names"
  by (simp add: foreign_names_def)

lemma listdir_crowded_world:
  "listdir crowded_world = foreign_names @ [''scan_20261103_230405.json'']"
proof -
  have "listdir (fresh_world\<lparr>scans := Some (map (\<lambda>name. (name, [])) foreign_names)\<rparr>) =
      foreign_names"
    by (simp add: listdir_def comp_def)
  then show ?thesis
    using scan_name_not_foreign
    by (simp add: crowded_world_def saved_Cons saved_Nil listdir_save_scan scan_filename_example)
qed

lemma sort_crowded:
  "rev (sort (
      [''t_20261103230401.json'', ''t_20261103230402.json'', ''t_20261103230403.json'',
       ''t_20261103230404.json'', ''t_20261103230405.json'', ''t_20261103230406.json'',
       ''t_20261103230407.json'', ''t_20261103230408.json'', ''t_20261103230409.json'',
       ''t_20261103230410.json'', ''t_20261103230411.json'', ''t_20261103230412.json''] @
      [''scan_20261103_230405.json''])) =
     [''t_20261103230412.json'', ''t_20261103230411.json'', ''t_20261103230410.json'',
      ''t_20261103230409.json'', ''t_20261103230408.json'', ''t_20261103230407.json'',
      ''t_20261103230406.json'', ''t_20261103230405.json'', ''t_20261103230404.json'',
      ''t_20261103230403.json'', ''t_20261103230402.json'', ''t_20261103230401.json'',
      ''scan_20261103_230405.json'']"
  by code_simp

lemma sorted_scans_crowded_world:
  "sorted_scans crowded_world =
     [''t_20261103230412.json'', ''t_20261103230411.json'', ''t_20261103230410.json'',
      ''t_20261103230409.json'', ''t_20261103230408.json'', ''t_20261103230407.json'',
      ''t_20261103230406.json'', ''t_20261103230405.json'', ''t_20261103230404.json'',
      ''t_20261103230403.json'', ''t_20261103230402.json'', ''t_20261103230401.json'',
      ''scan_20261103_230405.json'']"
  by (simp only: sorted_scans_def listdir_crowded_world foreign_names_def sort_crowded)

lemma first_ten_crowded_world:
  "take 10 (sorted_scans crowded_world) =
     [''t_20261103230412.json'', ''t_20261103230411.json'', ''t_20261103230410.json'',
      ''t_20261103230409.json'', ''t_20261103230408.json'', ''t_20261103230407.json'',
      ''t_20261103230406.json'', ''t_20261103230405.json'', ''t_20261103230404.json'',
      ''t_20261103230403.json'']"
  by (simp add: sorted_scans_crowded_world)

lemma strptime_examples:
  "strptime ''20261103230412'' ''%Y%m%d%H%M%S'' =
     Inr \<lparr>year = 2026, month = 11, day = 3, hour = 23, minute = 4, second = 12, microsecond = 0\<rparr>"
  "strptime ''20261103230411'' ''%Y%m%d%H%M%S'' =
     Inr \<lparr>year = 2026, month = 11, day = 3, hour = 23, minute = 4, second = 11, microsecond = 0\<rparr>"
  "strptime ''20261103230410'' ''%Y%m%d%H%M%S'' =
     Inr \<lparr>year = 2026, month = 11, day = 3, hour = 23, minute = 4, second = 10, microsecond = 0\<rparr>"
  "strptime ''20261103230409'' ''%Y%m%d%H%M%S'' =
     Inr \<lparr>year = 2026, month = 11, day = 3, hour = 23, minute = 4, second = 9, microsecond = 0\<rparr>"
  "strptime ''20261103230408'' ''%Y%m%d%H%M%S'' =
     Inr \<lparr>year = 2026, month = 11, day = 3, hour = 23, minute = 4, second = 8, microsecond = 0\<rparr>"
  "strptime ''20261103230407'' ''%Y%m%d%H%M%S'' =
     Inr \<lparr>year = 2026, month = 11, day = 3, hour = 23, minute = 4, second = 7, microsecond = 0\<rparr>"
  "strptime ''20261103230406'' ''%Y%m%d%H%M%S'' =
     Inr \<lparr>year = 2026, month = 11, day = 3, hour = 23, minute = 4, second = 6, microsecond = 0\<rparr>"
  "strptime ''20261103230405'' ''%Y%m%d%H%M%S'' =
     Inr \<lparr>year = 2026, month = 11, day = 3, hour = 23, minute = 4, second = 5, microsecond = 0\<rparr>"
  "strptime ''20261103230404'' ''%Y%m%d%H%M%S'' =
     Inr \<lparr>year = 2026, month = 11, day = 3, hour = 23, minute = 4, second = 4, microsecond = 0\<rparr>"
  "strptime ''20261103230403'' ''%Y%m%d%H%M%S'' =
     Inr \<lparr>year = 2026, month = 11, day = 3, hour = 23, minute = 4, second = 3, microsecond = 0\<rparr>"
  by (simp_all add: strptime_def format_regex_history match_group_def map_filter_simps
      dec_digits_def nonzero_digits_def field_or_def field_int_def valid_datetime_def
      days_in_month_def is_leap_def del: format_regex.simps)

lemma zdigits_more: "zdigits 2 9 = ''09''" "zdigits 2 10 = ''10''" "zdigits 2 12 = ''12''"
  by code_simp+

lemma dates_crowded:
  "map history_date
     [''t_20261103230412.json'', ''t_20261103230411.json'', ''t_20261103230410.json'',
      ''t_20261103230409.json'', ''t_20261103230408.json'', ''t_20261103230407.json'',
      ''t_20261103230406.json'', ''t_20261103230405.json'', ''t_20261103230404.json'',
      ''t_20261103230403.json''] =
   map Inr
     [''2026-11-03 23:04:12'', ''2026-11-03 23:04:11'', ''2026-11-03 23:04:10'',
      ''2026-11-03 23:04:09'', ''2026-11-03 23:04:08'', ''2026-11-03 23:04:07'',
      ''2026-11-03 23:04:06'', ''2026-11-03 23:04:05'', ''2026-11-03 23:04:04'',
      ''2026-11-03 23:04:03'']"
  by (simp add: history_date_def str_split_def list_index_def strptime_examples directive_def
      zdigits_examples zdigits_more del: zdigits.simps)

lemma summaries_crowded:
  "summaries 0
     [''t_20261103230412.json'', ''t_20261103230411.json'', ''t_20261103230410.json'',
      ''t_20261103230409.json'', ''t_20261103230408.json'', ''t_20261103230407.json'',
      ''t_20261103230406.json'', ''t_20261103230405.json'', ''t_20261103230404.json'',
      ''t_20261103230403.json'']
     [''2026-11-03 23:04:12'', ''2026-11-03 23:04:11'', ''2026-11-03 23:04:10'',
      ''2026-11-03 23:04:09'', ''2026-11-03 23:04:08'', ''2026-11-03 23:04:07'',
      ''2026-11-03 23:04:06'', ''2026-11-03 23:04:05'', ''2026-11-03 23:04:04'',
      ''2026-11-03 23:04:03''] =
     [''1) Scan ID: t_20261103230412.json, Date: 2026-11-03 23:04:12'',
      ''2) Scan ID: t_20261103230411.json, Date: 2026-11-03 23:04:11'',
      ''3) Scan ID: t_20261103230410.json, Date: 2026-11-03 23:04:10'',
      ''4) Scan ID: t_20261103230409.json, Date: 2026-11-03 23:04:09'',
      ''5) Scan ID: t_20261103230408.json, Date: 2026-11-03 23:04:08'',
      ''6) Scan ID: t_20261103230407.json, Date: 2026-11-03 23:04:07'',
      ''7) Scan ID: t_20261103230406.json, Date: 2026-11-03 23:04:06'',
      ''8) Scan ID: t_20261103230405.json, Date: 2026-11-03 23:04:05'',
      ''9) Scan ID: t_20261103230404.json, Date: 2026-11-03 23:04:04'',
      ''10) Scan ID: t_20261103230403.json, Date: 2026-11-03 23:04:03'']"
  by code_simp

lemma read_file_crowded_world:
  "read_file ''scan_20261103_230405.json'' crowded_world = Some (json_dumps example_record)"
  using read_file_save_same [of example_time example_record]
  by (simp add: crowded_world_def saved_Cons saved_Nil scan_filename_example)

lemma listdir_crowded_nonempty: "listdir crowded_world \<noteq> []"
  by (simp add: listdir_crowded_world)

lemma view_history_crowded_world:
  "view_history no_selection crowded_world =
     (Inr (),
      crowded_world\<lparr>stdout := stdout crowded_world @
        [colorize GREEN banner_text, CHR 0x0A # ''===== Scan History ====='' @ [CHR 0x0A]] @
     [''1) Scan ID: t_20261103230412.json, Date: 2026-11-03 23:04:12'',
      ''2) Scan ID: t_20261103230411.json, Date: 2026-11-03 23:04:11'',
      ''3) Scan ID: t_20261103230410.json, Date: 2026-11-03 23:04:10'',
      ''4) Scan ID: t_20261103230409.json, Date: 2026-11-03 23:04:09'',
      ''5) Scan ID: t_20261103230408.json, Date: 2026-11-03 23:04:08'',
      ''6) Scan ID: t_20261103230407.json, Date: 2026-11-03 23:04:07'',
      ''7) Scan ID: t_20261103230406.json, Date: 2026-11-03 23:04:06'',
      ''8) Scan ID: t_20261103230405.json, Date: 2026-11-03 23:04:05'',
      ''9) Scan ID: t_20261103230404.json, Date: 2026-11-03 23:04:04'',
      ''10) Scan ID: t_20261103230403.json, Date: 2026-11-03 23:04:03'']\<rparr>)"
proof -
  have d: "map history_date (take 10 (sorted_scans crowded_world)) =
   map Inr
     [''2026-11-03 23:04:12'', ''2026-11-03 23:04:11'', ''2026-11-03 23:04:10'',
      ''2026-11-03 23:04:09'', ''2026-11-03 23:04:08'', ''2026-11-03 23:04:07'',
      ''2026-11-03 23:04:06'', ''2026-11-03 23:04:05'', ''2026-11-03 23:04:04'',
      ''2026-11-03 23:04:03'']"
    by (simp only: first_ten_crowded_world dates_crowded)
  show ?thesis
    by (simp only: view_history_prints [OF listdir_crowded_nonempty d] no_selection_def
        first_ten_crowded_world summaries_crowded)
qed

text \<open>
  C7, as the code has it, for the crowded directory of 13 files, of which the 10 with
  the greatest names are summarised, and for the eight reports saved at 23:04:01 to
  23:04:08.
\<close>

theorem history_names_after_saves_witness:
  "listdir crowded_world \<noteq> [] \<and>
   map history_date (take 10 (sorted_scans crowded_world)) =
     map Inr
       [''2026-11-03 23:04:12'', ''2026-11-03 23:04:11'', ''2026-11-03 23:04:10'',
        ''2026-11-03 23:04:09'', ''2026-11-03 23:04:08'', ''2026-11-03 23:04:07'',
        ''2026-11-03 23:04:06'', ''2026-11-03 23:04:05'', ''2026-11-03 23:04:04'',
        ''2026-11-03 23:04:03''] \<and>
   view_history no_selection crowded_world =
     (Inr (),
      crowded_world\<lparr>stdout := stdout crowded_world @
        [colorize GREEN banner_text, CHR 0x0A # ''===== Scan History ====='' @ [CHR 0x0A]] @
         [''1) Scan ID: t_20261103230412.json, Date: 2026-11-03 23:04:12'',
          ''2) Scan ID: t_20261103230411.json, Date: 2026-11-03 23:04:11'',
          ''3) Scan ID: t_20261103230410.json, Date: 2026-11-03 23:04:10'',
          ''4) Scan ID: t_20261103230409.json, Date: 2026-11-03 23:04:09'',
          ''5) Scan ID: t_20261103230408.json, Date: 2026-11-03 23:04:08'',
          ''6) Scan ID: t_20261103230407.json, Date: 2026-11-03 23:04:07'',
          ''7) Scan ID: t_20261103230406.json, Date: 2026-11-03 23:04:06'',
          ''8) Scan ID: t_20261103230405.json, Date: 2026-11-03 23:04:05'',
          ''9) Scan ID: t_20261103230404.json, Date: 2026-11-03 23:04:04'',
          ''10) Scan ID: t_20261103230403.json, Date: 2026-11-03 23:04:03'']\<rparr>) \<and>
   list_all valid_datetime (map fst eight_reports) \<and>
   sorted_wrt earlier_second (map fst eight_reports) \<and>
   listdir fresh_world = [] \<and> length eight_reports = 8 \<and>
   take 10 (sorted_scans (saved eight_reports fresh_world)) =
       [''scan_20261103_230408.json'', ''scan_20261103_230407.json'',
        ''scan_20261103_230406.json'', ''scan_20261103_230405.json'',
        ''scan_20261103_230404.json'', ''scan_20261103_230403.json'',
        ''scan_20261103_230402.json'', ''scan_20261103_230401.json'']"
proof -
  have d: "map history_date (take 10 (sorted_scans crowded_world)) =
     map Inr
       [''2026-11-03 23:04:12'', ''2026-11-03 23:04:11'', ''2026-11-03 23:04:10'',
        ''2026-11-03 23:04:09'', ''2026-11-03 23:04:08'', ''2026-11-03 23:04:07'',
        ''2026-11-03 23:04:06'', ''2026-11-03 23:04:05'', ''2026-11-03 23:04:04'',
        ''2026-11-03 23:04:03'']"
    by (simp only: first_ten_crowded_world dates_crowded)
  have "view_history no_selection crowded_world =
      no_selection (sorted_scans crowded_world)
        (crowded_world\<lparr>stdout := stdout crowded_world @
           [colorize GREEN banner_text, CHR 0x0A # ''===== Scan History ====='' @ [CHR 0x0A]] @
           summaries 0 (take 10 (sorted_scans crowded_world))
       [''2026-11-03 23:04:12'', ''2026-11-03 23:04:11'', ''2026-11-03 23:04:10'',
        ''2026-11-03 23:04:09'', ''2026-11-03 23:04:08'', ''2026-11-03 23:04:07'',
        ''2026-11-03 23:04:06'', ''2026-11-03 23:04:05'', ''2026-11-03 23:04:04'',
        ''2026-11-03 23:04:03'']\<rparr>)"
    using history_names_after_saves [of crowded_world _ no_selection] listdir_crowded_nonempty d
    by blast
  then have v: "view_history no_selection crowded_world =
     (Inr (),
      crowded_world\<lparr>stdout := stdout crowded_world @
        [colorize GREEN banner_text, CHR 0x0A # ''===== Scan History ====='' @ [CHR 0x0A]] @
         [''1) Scan ID: t_20261103230412.json, Date: 2026-11-03 23:04:12'',
          ''2) Scan ID: t_20261103230411.json, Date: 2026-11-03 23:04:11'',
          ''3) Scan ID: t_20261103230410.json, Date: 2026-11-03 23:04:10'',
          ''4) Scan ID: t_20261103230409.json, Date: 2026-11-03 23:04:09'',
          ''5) Scan ID: t_20261103230408.json, Date: 2026-11-03 23:04:08'',
          ''6) Scan ID: t_20261103230407.json, Date: 2026-11-03 23:04:07'',
          ''7) Scan ID: t_20261103230406.json, Date: 2026-11-03 23:04:06'',
          ''8) Scan ID: t_20261103230405.json, Date: 2026-11-03 23:04:05'',
          ''9) Scan ID: t_20261103230404.json, Date: 2026-11-03 23:04:04'',
          ''10) Scan ID: t_20261103230403.json, Date: 2026-11-03 23:04:03'']\<rparr>)"
    by (simp only: no_selection_def first_ten_crowded_world summaries_crowded)
  have "take 10 (sorted_scans (saved eight_reports fresh_world)) =
      rev (map (scan_filename \<circ> fst) eight_reports)"
    using history_names_after_saves [of fresh_world _ _ eight_reports]
      eight_reports_valid eight_reports_sorted listdir_fresh_world length_eight_reports
    by blast
  then have e: "take 10 (sorted_scans (saved eight_reports fresh_world)) =
       [''scan_20261103_230408.json'', ''scan_20261103_230407.json'',
        ''scan_20261103_230406.json'', ''scan_20261103_230405.json'',
        ''scan_20261103_230404.json'', ''scan_20261103_230403.json'',
        ''scan_20261103_230402.json'', ''scan_20261103_230401.json'']"
    by (simp only: eight_reports_names)
  show ?thesis
    by (intro conjI listdir_crowded_nonempty d v eight_reports_valid eight_reports_sorted
        listdir_fresh_world length_eight_reports e)
qed

lemma listdir_saved_eight:
  "listdir (saved eight_reports fresh_world) = map scan_filename (map fst eight_reports)"
proof -
  have "sorted_wrt (<) (map scan_filename (map fst eight_reports))"
    by (rule filenames_strictly_sorted [OF eight_reports_valid eight_reports_sorted])
  then have "distinct (map (scan_filename \<circ> fst) eight_reports)"
    by (simp add: strict_sorted_iff)
  then show ?thesis
    using listdir_saved [of eight_reports fresh_world] by (simp add: listdir_fresh_world)
qed

text \<open>
  C7, against the claim. After the eight reports have been saved, \<open>view_history\<close>
  goes through 8 names, not 5: its loop runs over all eight report names, the most
  recent first. And it prints no summary at all: it raises ValueError at the first name,
  after the banner and the heading.
\<close>

theorem view_history_eight_reports:
  "length eight_reports = 8 \<and>
   length (take 10 (sorted_scans (saved eight_reports fresh_world))) = 8 \<and>
   view_history no_selection (saved eight_reports fresh_world) =
     then_do
       (history_loop 0
         [''scan_20261103_230408.json'', ''scan_20261103_230407.json'',
          ''scan_20261103_230406.json'', ''scan_20261103_230405.json'',
          ''scan_20261103_230404.json'', ''scan_20261103_230403.json'',
          ''scan_20261103_230402.json'', ''scan_20261103_230401.json'']
          ((saved eight_reports fresh_world)
             \<lparr>stdout := stdout (saved eight_reports fresh_world) @ [colorize GREEN banner_text, CHR 0x0A # ''===== Scan History ====='' @ [CHR 0x0A]]\<rparr>))
       (\<lambda>_ w3. no_selection
         [''scan_20261103_230408.json'', ''scan_20261103_230407.json'',
          ''scan_20261103_230406.json'', ''scan_20261103_230405.json'',
          ''scan_20261103_230404.json'', ''scan_20261103_230403.json'',
          ''scan_20261103_230402.json'', ''scan_20261103_230401.json''] w3) \<and>
   view_history no_selection (saved eight_reports fresh_world) =
     (Inl ValueError,
      (saved eight_reports fresh_world)
        \<lparr>stdout := stdout (saved eight_reports fresh_world) @ [colorize GREEN banner_text, CHR 0x0A # ''===== Scan History ====='' @ [CHR 0x0A]]\<rparr>)"
proof -
  have s: "sorted_scans (saved eight_reports fresh_world) =
      rev (map (scan_filename \<circ> fst) eight_reports)"
    by (rule sorted_scans_saved [OF eight_reports_valid eight_reports_sorted listdir_fresh_world])
  have a: "length (take 10 (sorted_scans (saved eight_reports fresh_world))) = 8"
    by (simp add: s length_eight_reports)
  have ne: "map fst eight_reports \<noteq> []"
    using length_eight_reports by auto
  then have b: "view_history no_selection (saved eight_reports fresh_world) =
     (Inl ValueError,
      (saved eight_reports fresh_world)
        \<lparr>stdout := stdout (saved eight_reports fresh_world) @ [colorize GREEN banner_text, CHR 0x0A # ''===== Scan History ====='' @ [CHR 0x0A]]\<rparr>)"
    by (rule view_history_raises [OF listdir_saved_eight])
  have t: "take 10 (sorted_scans (saved eight_reports fresh_world)) =
       [''scan_20261103_230408.json'', ''scan_20261103_230407.json'',
        ''scan_20261103_230406.json'', ''scan_20261103_230405.json'',
        ''scan_20261103_230404.json'', ''scan_20261103_230403.json'',
        ''scan_20261103_230402.json'', ''scan_20261103_230401.json'']"
    by (simp add: s eight_reports_names)
  have s': "sorted_scans (saved eight_reports fresh_world) =
       [''scan_20261103_230408.json'', ''scan_20261103_230407.json'',
        ''scan_20261103_230406.json'', ''scan_20261103_230405.json'',
        ''scan_20261103_230404.json'', ''scan_20261103_230403.json'',
        ''scan_20261103_230402.json'', ''scan_20261103_230401.json'']"
    by (simp only: s eight_reports_names)
  from ne have "listdir (saved eight_reports fresh_world) \<noteq> []"
    by (simp add: listdir_saved_eight)
  from view_history_unfold [OF this, of no_selection]
  have c: "view_history no_selection (saved eight_reports fresh_world) =
     then_do
       (history_loop 0
         [''scan_20261103_230408.json'', ''scan_20261103_230407.json'',
          ''scan_20261103_230406.json'', ''scan_20261103_230405.json'',
          ''scan_20261103_230404.json'', ''scan_20261103_230403.json'',
          ''scan_20261103_230402.json'', ''scan_20261103_230401.json'']
          ((saved eight_reports fresh_world)
             \<lparr>stdout := stdout (saved eight_reports fresh_world) @ [colorize GREEN banner_text, CHR 0x0A # ''===== Scan History ====='' @ [CHR 0x0A]]\<rparr>))
       (\<lambda>_ w3. no_selection
         [''scan_20261103_230408.json'', ''scan_20261103_230407.json'',
          ''scan_20261103_230406.json'', ''scan_20261103_230405.json'',
          ''scan_20261103_230404.json'', ''scan_20261103_230403.json'',
          ''scan_20261103_230402.json'', ''scan_20261103_230401.json''] w3)"
    by (simp only: s' t [unfolded s'])
  show ?thesis
    by (intro conjI length_eight_reports a c b)
qed

text \<open>
  C9, against the claim. In a directory that holds a saved scan and twelve other files
  with greater names, \<open>view_history\<close> does not fail: the ten names it goes through
  are greater than the name of the saved scan and their dates parse, so it prints ten
  summaries and goes on to the selection.
\<close>

theorem view_history_passes_over_saved_scan:
  "scan_filename example_time = ''scan_20261103_230405.json'' \<and>
   ''scan_20261103_230405.json'' \<in> set (listdir crowded_world) \<and>
   read_file ''scan_20261103_230405.json'' crowded_world = Some (json_dumps example_record) \<and>
   view_history no_selection crowded_world =
     (Inr (),
      crowded_world\<lparr>stdout := stdout crowded_world @
        [colorize GREEN banner_text, CHR 0x0A # ''===== Scan History ====='' @ [CHR 0x0A]] @
         [''1) Scan ID: t_20261103230412.json, Date: 2026-11-03 23:04:12'',
          ''2) Scan ID: t_20261103230411.json, Date: 2026-11-03 23:04:11'',
          ''3) Scan ID: t_20261103230410.json, Date: 2026-11-03 23:04:10'',
          ''4) Scan ID: t_20261103230409.json, Date: 2026-11-03 23:04:09'',
          ''5) Scan ID: t_20261103230408.json, Date: 2026-11-03 23:04:08'',
          ''6) Scan ID: t_20261103230407.json, Date: 2026-11-03 23:04:07'',
          ''7) Scan ID: t_20261103230406.json, Date: 2026-11-03 23:04:06'',
          ''8) Scan ID: t_20261103230405.json, Date: 2026-11-03 23:04:05'',
          ''9) Scan ID: t_20261103230404.json, Date: 2026-11-03 23:04:04'',
          ''10) Scan ID: t_20261103230403.json, Date: 2026-11-03 23:04:03'']\<rparr>)"
proof -
  have i: "''scan_20261103_230405.json'' \<in> set (listdir crowded_world)"
    by (simp add: listdir_crowded_world)
  show ?thesis
    by (intro conjI scan_filename_example i read_file_crowded_world view_history_crowded_world)
qed

text \<open>
  C9, as the code has it. For every file name that \<open>save_scan\<close> makes, splitting the
  name without \<open>.json\<close> at the underscores gives the date of 8 characters at index 1,
  which \<open>strptime\<close> refuses for the format of 14 digits: the date of the file raises
  ValueError. So \<open>view_history\<close> raises ValueError after the banner and the heading
  when the directory is not empty and holds only files named by \<open>save_scan\<close>; it
  raises ValueError when such a file is among the first 10 names in descending order and
  the dates of the names before it parse, after their summaries; and it raises some
  error whenever such a file is among these 10 names.
\<close>

theorem view_history_fails_on_saved_scans:
  "str_split (str_replace ''.json'' [] (scan_filename t)) ''_'' =
     Inr [''scan'', strftime ''%Y%m%d'' t, strftime ''%H%M%S'' t] \<and>
   length (strftime ''%Y%m%d'' t) = 8 \<and>
   strptime (strftime ''%Y%m%d'' t) ''%Y%m%d%H%M%S'' = Inl ValueError \<and>
   history_date (scan_filename t) = Inl ValueError \<and>
   (listdir w = map scan_filename ts \<and> ts \<noteq> [] \<longrightarrow>
    view_history selection w =
      (Inl ValueError, w\<lparr>stdout := stdout w @ [colorize GREEN banner_text, CHR 0x0A # ''===== Scan History ====='' @ [CHR 0x0A]]\<rparr>)) \<and>
   (take 10 (sorted_scans w) = pre @ scan_filename t # post \<and>
    map history_date pre = map Inr dates \<longrightarrow>
    view_history selection w =
      (Inl ValueError,
       w\<lparr>stdout := stdout w @ [colorize GREEN banner_text, CHR 0x0A # ''===== Scan History ====='' @ [CHR 0x0A]] @ summaries 0 pre dates\<rparr>)) \<and>
   (scan_filename t \<in> set (take 10 (sorted_scans w)) \<longrightarrow>
    (\<exists>e. fst (view_history selection w) = Inl e))"
proof (intro conjI impI)
  show "str_split (str_replace ''.json'' [] (scan_filename t)) ''_'' =
     Inr [''scan'', strftime ''%Y%m%d'' t, strftime ''%H%M%S'' t]"
    by (rule split_scan_filename)
  show "length (strftime ''%Y%m%d'' t) = 8"
    by (rule strftime_date_plain(3))
  show "strptime (strftime ''%Y%m%d'' t) ''%Y%m%d%H%M%S'' = Inl ValueError"
    by (rule strptime_short) (simp add: strftime_date_plain(3) del: strftime.simps)
  show "history_date (scan_filename t) = Inl ValueError"
    by (rule history_date_scan_filename)
  show "view_history selection w =
      (Inl ValueError, w\<lparr>stdout := stdout w @ [colorize GREEN banner_text, CHR 0x0A # ''===== Scan History ====='' @ [CHR 0x0A]]\<rparr>)"
    if "listdir w = map scan_filename ts \<and> ts \<noteq> []"
    using that view_history_raises by blast
  show "view_history selection w =
      (Inl ValueError,
       w\<lparr>stdout := stdout w @ [colorize GREEN banner_text, CHR 0x0A # ''===== Scan History ====='' @ [CHR 0x0A]] @ summaries 0 pre dates\<rparr>)"
    if "take 10 (sorted_scans w) = pre @ scan_filename t # post \<and>
        map history_date pre = map Inr dates"
    using that view_history_raises_at [OF _ _ history_date_scan_filename] by blast
  show "\<exists>e. fst (view_history selection w) = Inl e"
    if "scan_filename t \<in> set (take 10 (sorted_scans w))"
    using that view_history_raises_member [OF _ history_date_scan_filename] by blast
qed

lemma listdir_saved_one:
  "listdir (saved [(example_time, example_record)] fresh_world) = map scan_filename [example_time]"
  using listdir_saved [of "[(example_time, example_record)]" fresh_world]
  by (simp add: listdir_fresh_world)

lemma first_ten_saved_one:
  "take 10 (sorted_scans (saved [(example_time, example_record)] fresh_world)) =
     [] @ scan_filename example_time # []"
  by (simp add: sorted_scans_def listdir_saved_one del: strftime.simps)

text \<open>C9, as the code has it, for the directory after one save.\<close>

theorem view_history_fails_on_saved_scans_witness:
  "listdir (saved [(example_time, example_record)] fresh_world) = map scan_filename [example_time] \<and>
   [example_time] \<noteq> [] \<and>
   take 10 (sorted_scans (saved [(example_time, example_record)] fresh_world)) =
     [] @ scan_filename example_time # [] \<and>
   map history_date [] = map Inr [] \<and>
   scan_filename example_time \<in>
     set (take 10 (sorted_scans (saved [(example_time, example_record)] fresh_world))) \<and>
   history_date ''scan_20261103_230405.json'' = Inl ValueError \<and>
   view_history no_selection (saved [(example_time, example_record)] fresh_world) =
     (Inl ValueError,
      (saved [(example_time, example_record)] fresh_world)
        \<lparr>stdout := stdout (saved [(example_time, example_record)] fresh_world) @
           [colorize GREEN banner_text, CHR 0x0A # ''===== Scan History ====='' @ [CHR 0x0A]]\<rparr>) \<and>
   fst (view_history no_selection (saved [(example_time, example_record)] fresh_world)) =
     Inl ValueError"
proof -
  note t = view_history_fails_on_saved_scans [of example_time
      "saved [(example_time, example_record)] fresh_world" "[example_time]" no_selection
      "[]" "[]" "[]"]
  have ne: "[example_time] \<noteq> []" by simp
  have m: "map history_date [] = map Inr []" by simp
  have i: "scan_filename example_time \<in>
     set (take 10 (sorted_scans (saved [(example_time, example_record)] fresh_world)))"
    by (simp only: first_ten_saved_one) simp
  from t have "history_date (scan_filename example_time) = Inl ValueError" by blast
  then have h: "history_date ''scan_20261103_230405.json'' = Inl ValueError"
    by (simp only: scan_filename_example)
  from t listdir_saved_one ne
  have v: "view_history no_selection (saved [(example_time, example_record)] fresh_world) =
     (Inl ValueError,
      (saved [(example_time, example_record)] fresh_world)
        \<lparr>stdout := stdout (saved [(example_time, example_record)] fresh_world) @
           [colorize GREEN banner_text, CHR 0x0A # ''===== Scan History ====='' @ [CHR 0x0A]]\<rparr>)"
    by blast
  from t i obtain e where
    e: "fst (view_history no_selection (saved [(example_time, example_record)] fresh_world)) = Inl e"
    by blast
  have f: "fst (view_history no_selection (saved [(example_time, example_record)] fresh_world)) =
     Inl ValueError"
    by (simp only: v fst_conv)
  show ?thesis
    by (intro conjI listdir_saved_one ne first_ten_saved_one m i h v f)
qed

subsection \<open>Two saves\<close>

lemma read_file_saved_two_distinct:
  assumes "scan_filename a \<noteq> scan_filename b"
  shows "read_file (scan_filename a) (saved [(a, d1), (b, d2)] w) = Some (json_dumps d1)"
    and "read_file (scan_filename b) (saved [(a, d1), (b, d2)] w) = Some (json_dumps d2)"
  using assms
  by (simp_all add: saved_Cons saved_Nil read_file_save_same read_file_save_other)

lemma read_file_saved_two_same:
  assumes "scan_filename a = scan_filename b"
  shows "read_file (scan_filename a) (saved [(a, d1), (b, d2)] w) = Some (json_dumps d2)"
  using assms
  by (simp add: saved_Cons saved_Nil read_file_save_same)

text \<open>
  C3, as the code has it. The name of the file is the clock reading cut to the second:
  two readings give the same name exactly when they lie in the same second, and the
  names are ordered as the seconds are. Two reports saved in different seconds are both
  in the directory afterwards; of two reports saved in the same second only the later
  one is.
\<close>

theorem scan_filename_by_second:
  assumes "valid_datetime a" "valid_datetime b"
  shows "(scan_filename a = scan_filename b \<longleftrightarrow> same_second a b) \<and>
    (scan_filename a < scan_filename b \<longleftrightarrow> earlier_second a b) \<and>
    (\<not> same_second a b \<longrightarrow>
       read_file (scan_filename a) (saved [(a, d1), (b, d2)] w) = Some (json_dumps d1) \<and>
       read_file (scan_filename b) (saved [(a, d1), (b, d2)] w) = Some (json_dumps d2)) \<and>
    (same_second a b \<longrightarrow>
       read_file (scan_filename a) (saved [(a, d1), (b, d2)] w) = Some (json_dumps d2))"
proof (intro conjI impI)
  show e: "scan_filename a = scan_filename b \<longleftrightarrow> same_second a b"
    by (rule scan_filename_eq_iff [OF assms])
  show "scan_filename a < scan_filename b \<longleftrightarrow> earlier_second a b"
    by (rule scan_filename_less_iff [OF assms])
  {
    assume "\<not> same_second a b"
    with e have n: "scan_filename a \<noteq> scan_filename b" by simp
    show "read_file (scan_filename a) (saved [(a, d1), (b, d2)] w) = Some (json_dumps d1)"
      by (rule read_file_saved_two_distinct(1) [OF n])
    show "read_file (scan_filename b) (saved [(a, d1), (b, d2)] w) = Some (json_dumps d2)"
      by (rule read_file_saved_two_distinct(2) [OF n])
  }
  assume "same_second a b"
  with e have "scan_filename a = scan_filename b" by simp
  then show "read_file (scan_filename a) (saved [(a, d1), (b, d2)] w) = Some (json_dumps d2)"
    by (rule read_file_saved_two_same)
qed

lemma examples_seconds:
  "same_second example_time later_time" "\<not> same_second example_time next_second"
  "earlier_second example_time next_second"
  by (simp_all add: same_second_def earlier_second_def later_time_def next_second_def
      example_time_def)

text \<open>C3, as the code has it, for a save one second later and a save in the same second.\<close>

theorem scan_filename_by_second_witness:
  "valid_datetime example_time \<and> valid_datetime next_second \<and> valid_datetime later_time \<and>
   \<not> same_second example_time next_second \<and> same_second example_time later_time \<and>
   ''scan_20261103_230405.json'' < ''scan_20261103_230406.json'' \<and>
   read_file ''scan_20261103_230405.json''
     (saved [(example_time, example_record), (next_second, other_record)] fresh_world) =
     Some (json_dumps example_record) \<and>
   read_file ''scan_20261103_230406.json''
     (saved [(example_time, example_record), (next_second, other_record)] fresh_world) =
     Some (json_dumps other_record) \<and>
   read_file ''scan_20261103_230405.json''
     (saved [(example_time, example_record), (later_time, other_record)] fresh_world) =
     Some (json_dumps other_record)"
proof -
  note n = scan_filename_by_second [OF valid_examples(1) valid_examples(3),
      of example_record other_record fresh_world]
  note l = scan_filename_by_second [OF valid_examples(1) valid_examples(2),
      of example_record other_record fresh_world]
  from n examples_seconds(2,3)
  have n1: "scan_filename example_time < scan_filename next_second"
    and n2: "read_file (scan_filename example_time)
       (saved [(example_time, example_record), (next_second, other_record)] fresh_world) =
       Some (json_dumps example_record)"
    and n3: "read_file (scan_filename next_second)
       (saved [(example_time, example_record), (next_second, other_record)] fresh_world) =
       Some (json_dumps other_record)"
    by blast+
  from l examples_seconds(1)
  have l1: "read_file (scan_filename example_time)
       (saved [(example_time, example_record), (later_time, other_record)] fresh_world) =
       Some (json_dumps other_record)"
    by blast
  show ?thesis
    using n1 n2 n3 l1
    by (simp only: scan_filename_example scan_filename_next valid_examples examples_seconds
        simp_thms)
qed

lemma records_differ: "example_record \<noteq> other_record"
  by (simp add: example_record_def other_record_def scan_record_def)

lemma times_differ: "example_time \<noteq> later_time"
  by (simp add: example_time_def later_time_def)

text \<open>
  C3, against the claim. Two different reports saved at two different clock readings
  within the same second get the same name: afterwards the directory holds one file, with
  the second report in it.
\<close>

theorem same_second_overwrites:
  "example_time \<noteq> later_time \<and> example_record \<noteq> other_record \<and>
   scan_filename example_time = scan_filename later_time \<and>
   listdir (saved [(example_time, example_record), (later_time, other_record)] fresh_world) =
     [''scan_20261103_230405.json''] \<and>
   read_file ''scan_20261103_230405.json''
     (saved [(example_time, example_record), (later_time, other_record)] fresh_world) =
     Some (json_dumps other_record)"
proof -
  have f: "scan_filename example_time = scan_filename later_time"
    by (simp only: scan_filename_example scan_filename_later)
  have l: "listdir (saved [(example_time, example_record), (later_time, other_record)] fresh_world) =
     [''scan_20261103_230405.json'']"
    by (simp add: saved_Cons saved_Nil listdir_save_scan listdir_fresh_world
        scan_filename_example scan_filename_later)
  have r: "read_file ''scan_20261103_230405.json''
     (saved [(example_time, example_record), (later_time, other_record)] fresh_world) =
     Some (json_dumps other_record)"
    using read_file_saved_two_same [OF f, of example_record other_record fresh_world]
    by (simp only: scan_filename_example)
  show ?thesis
    by (intro conjI times_differ records_differ f l r)
qed

subsection \<open>json.loads after json.dumps: strings\<close>










subsection \<open>White space and the first character of a value\<close>






subsection \<open>The fuel a value needs\<close>


subsection \<open>Lists and dictionaries, given their elements\<close>





subsection \<open>Every value\<close>



subsection \<open>A saved scan read back\<close>


end
